theory Spec2Isabelle
  imports Main "HOL-Library.Word"
begin

unbundle bit_operations_syntax

section \<open>Errors\<close>

text \<open>
  Every Go \<^verbatim>\<open>error\<close> value that the modelled code creates or compares is a constructor:
  \<^verbatim>\<open>redis_lock.ErrNil\<close>, the failure of \<^verbatim>\<open>lock.Lock\<close>, and the errors built by
  \<^verbatim>\<open>errors.New\<close> and \<^verbatim>\<open>fmt.Errorf\<close> with the values they format. \<open>ExternalError\<close>
  is any error of a store or participant implementation; \<open>NilDereference\<close> is the
  run-time panic of a nil pointer dereference.
\<close>

datatype error =
    ErrNil
  | ErrLockAcquiredByOthers
  | InvalidTxStatus string string
  | EmptyTask
  | RepeatComponent string
  | RepeatComponentID
  | ComponentNotExisted string
  | InvalidComponentIDs
  | GetTccComponentFailed
  | AckFailed string
  | TryFailed string
  | NilDereference
  | ExternalError string

section \<open>The participant contract (component/component.go)\<close>

text \<open>
  The payload \<^verbatim>\<open>map[string]interface{}\<close> is a map from keys to values; the only use the
  modelled code makes of a value is \<^verbatim>\<open>gocast.ToString\<close>, so a value is given by its string.
\<close>

record TCCReq =
  req_ComponentID :: string
  req_TXID :: string
  Data :: "string \<rightharpoonup> string"

record TCCResp =
  resp_ComponentID :: string
  ACK :: bool
  resp_TXID :: string

text \<open>
  A participant is an implementation of the interface \<^verbatim>\<open>TCCComponent\<close>. Its methods act on
  the world outside the coordinator, of any type \<open>'w\<close>, and return either an error or a
  response (the pair \<^verbatim>\<open>(*TCCResp, error)\<close> with the error checked first).
\<close>

record 'w TCCComponent =
  ID :: string
  Try :: "TCCReq \<Rightarrow> 'w \<Rightarrow> (error + TCCResp) \<times> 'w"
  Confirm :: "string \<Rightarrow> 'w \<Rightarrow> (error + TCCResp) \<times> 'w"
  Cancel :: "string \<Rightarrow> 'w \<Rightarrow> (error + TCCResp) \<times> 'w"

section \<open>The transaction model (txmanager/option.go)\<close>

text \<open>
  \<^verbatim>\<open>TXStatus\<close> and \<^verbatim>\<open>ComponentTryStatus\<close> are Go string types with three named
  constants each. A value of such a type can be any string, in particular the zero value
  \<^verbatim>\<open>""\<close>, so both are modelled as \<open>string\<close> and the constants as definitions.
\<close>

type_synonym TXStatus = string
type_synonym ComponentTryStatus = string

definition TXHanging :: TXStatus where
  "TXHanging = ''hanging''"

definition TXSuccessful :: TXStatus where
  "TXSuccessful = ''successful''"

definition TXFailure :: TXStatus where
  "TXFailure = ''failure''"

definition TryHanging :: ComponentTryStatus where
  "TryHanging = ''hanging''"

definition TrySucceesful :: ComponentTryStatus where
  "TrySucceesful = ''successful''"

definition TryFailure :: ComponentTryStatus where
  "TryFailure = ''failure''"

record ComponentTryEntity =
  ComponentID :: string
  TryStatus :: ComponentTryStatus

text \<open>
  An instant (\<^verbatim>\<open>time.Time\<close>) is an integer count of nanoseconds since the zero instant,
  so that the zero value of \<^verbatim>\<open>time.Time\<close> is \<open>0\<close> and \<^verbatim>\<open>a.Before(b)\<close> is \<open>a < b\<close>.
\<close>

record Transaction =
  TXID :: string
  Components :: "ComponentTryEntity list"
  Status :: TXStatus
  CreatedAt :: int

record RequestEntity =
  re_ComponentID :: string
  re_Request :: "string \<rightharpoonup> string"

record 'w ComponentEntity =
  Request :: "string \<rightharpoonup> string"
  Component :: "'w TCCComponent"

definition ToComponents :: "'w ComponentEntity list \<Rightarrow> 'w TCCComponent list" where
  "ToComponents c = map Component c"

text \<open>
  The struct literals of \<^verbatim>\<open>NewTransaction\<close> set \<^verbatim>\<open>ComponentID\<close>, \<^verbatim>\<open>TXID\<close> and
  \<^verbatim>\<open>Components\<close> only: every other field keeps the zero value of its type.
\<close>

definition NewTransaction :: "string \<Rightarrow> 'w ComponentEntity list \<Rightarrow> Transaction" where
  "NewTransaction txID componentEntities =
     \<lparr>TXID = txID,
      Components = map (\<lambda>componentEntity.
          \<lparr>ComponentID = ID (Component componentEntity), TryStatus = ''''\<rparr>) componentEntities,
      Status = '''',
      CreatedAt = 0\<rparr>"

text \<open>
  The loop of \<^verbatim>\<open>getStatus\<close>: it returns \<^verbatim>\<open>TXFailure\<close> at the first failed component,
  and carries the flag \<^verbatim>\<open>hangingExist\<close> otherwise. \<open>None\<close> is the early return.
\<close>

fun getStatus_loop :: "ComponentTryEntity list \<Rightarrow> bool \<Rightarrow> bool option" where
  "getStatus_loop [] hangingExist = Some hangingExist"
| "getStatus_loop (component # rest) hangingExist =
     (if TryStatus component = TryFailure then None
      else getStatus_loop rest (hangingExist \<or> TryStatus component \<noteq> TrySucceesful))"

definition getStatus :: "Transaction \<Rightarrow> int \<Rightarrow> TXStatus" where
  "getStatus t createdBefore =
     (if CreatedAt t < createdBefore then TXFailure
      else (case getStatus_loop (Components t) False of
              None \<Rightarrow> TXFailure
            | Some hangingExist \<Rightarrow> if hangingExist then TXHanging else TXSuccessful))"

text \<open>
  The derivation of the transaction status in the words of the specification (section
  4.4.4, step 1), for comparison with \<open>getStatus\<close>.
\<close>

definition getStatus_spec :: "Transaction \<Rightarrow> int \<Rightarrow> TXStatus" where
  "getStatus_spec t createdBefore =
     (if CreatedAt t < createdBefore \<and> Status t \<noteq> TXSuccessful then TXFailure
      else if list_ex (\<lambda>c. TryStatus c = TryFailure) (Components t) then TXFailure
      else if list_ex (\<lambda>c. TryStatus c = TryHanging) (Components t) then TXHanging
      else TXSuccessful)"

section \<open>Options and the back-off of the recovery loop\<close>

text \<open>\<^verbatim>\<open>time.Duration\<close> is a signed 64-bit count of nanoseconds.\<close>

type_synonym Duration = "64 word"

record Options =
  Timeout :: Duration
  MonitorTick :: Duration

definition backOffTick :: "Options \<Rightarrow> Duration \<Rightarrow> Duration" where
  "backOffTick opts tick0 =
     (let tick = push_bit 1 tick0;
          threshold = push_bit 3 (MonitorTick opts)
      in if threshold <s tick then threshold else tick)"

section \<open>The sample participant (example: MockComponent)\<close>

subsection \<open>Keys (example/pkg)\<close>

definition BuildTXKey :: "string \<Rightarrow> string \<Rightarrow> string" where
  "BuildTXKey componentID txID = ''txKey:'' @ componentID @ '':'' @ txID"

definition BuildTXDetailKey :: "string \<Rightarrow> string \<Rightarrow> string" where
  "BuildTXDetailKey componentID txID = ''txDetailKey:'' @ componentID @ '':'' @ txID"

definition BuildDataKey :: "string \<Rightarrow> string \<Rightarrow> string \<Rightarrow> string" where
  "BuildDataKey componentID txID bizID =
     ''txKey:'' @ componentID @ '':'' @ txID @ '':'' @ bizID"

definition BuildTXLockKey :: "string \<Rightarrow> string \<Rightarrow> string" where
  "BuildTXLockKey componentID txID = ''txLockKey:'' @ componentID @ '':'' @ txID"

subsection \<open>The key-value client\<close>

text \<open>
  \<^verbatim>\<open>redis_lock.Client\<close> is an external library. It is modelled as a reliable key-value
  store: \<^verbatim>\<open>Get\<close> of an absent key returns the empty string with \<^verbatim>\<open>ErrNil\<close> (the error
  that the source tests with \<^verbatim>\<open>errors.Is(err, redis_lock.ErrNil)\<close>), \<^verbatim>\<open>SetNX\<close> writes only
  an absent key and replies 1 when it wrote, and no operation fails otherwise. The lock
  of \<^verbatim>\<open>redis_lock.NewRedisLock(key, client)\<close> is taken when its key is absent and released
  by the deferred \<^verbatim>\<open>Unlock\<close>, so a call leaves the lock key as it found it.
\<close>

type_synonym redis = "string \<rightharpoonup> string"

definition client_Get :: "redis \<Rightarrow> string \<Rightarrow> string \<times> error option" where
  "client_Get kv key = (case kv key of None \<Rightarrow> ('''', Some ErrNil) | Some v \<Rightarrow> (v, None))"

definition client_Set :: "redis \<Rightarrow> string \<Rightarrow> string \<Rightarrow> error option \<times> redis" where
  "client_Set kv key v = (None, kv(key \<mapsto> v))"

definition client_SetNX :: "redis \<Rightarrow> string \<Rightarrow> string \<Rightarrow> (int \<times> error option) \<times> redis" where
  "client_SetNX kv key v =
     (case kv key of None \<Rightarrow> ((1, None), kv(key \<mapsto> v)) | Some old \<Rightarrow> ((0, None), kv))"

definition client_Del :: "redis \<Rightarrow> string \<Rightarrow> error option \<times> redis" where
  "client_Del kv key = (None, kv(key := None))"

definition lock_Lock :: "redis \<Rightarrow> string \<Rightarrow> error option" where
  "lock_Lock kv key = (if kv key = None then None else Some ErrLockAcquiredByOthers)"

subsection \<open>Status constants\<close>

definition TXTried :: string where
  "TXTried = ''tried''"

definition TXConfirmed :: string where
  "TXConfirmed = ''confirmed''"

definition TXCanceled :: string where
  "TXCanceled = ''canceled''"

definition DataFrozen :: string where
  "DataFrozen = ''frozen''"

definition DataSuccessful :: string where
  "DataSuccessful = ''successful''"

text \<open>\<^verbatim>\<open>gocast.ToString(req.Data["biz_id"])\<close>: an absent key is nil, whose string is empty.\<close>

definition ToString :: "string option \<Rightarrow> string" where
  "ToString v = (case v of None \<Rightarrow> '''' | Some x \<Rightarrow> x)"

subsection \<open>Try, Confirm, Cancel\<close>

text \<open>
  The receiver \<^verbatim>\<open>m\<close> is given by its identifier \<^verbatim>\<open>m.id\<close>; the state of its client is
  passed in and returned.
\<close>

definition MockComponent_Try ::
  "string \<Rightarrow> TCCReq \<Rightarrow> redis \<Rightarrow> (error + TCCResp) \<times> redis" where
  "MockComponent_Try m req kv =
     (case lock_Lock kv (BuildTXLockKey m (req_TXID req)) of
        Some err \<Rightarrow> (Inl err, kv)
      | None \<Rightarrow>
     (case client_Get kv (BuildTXKey m (req_TXID req)) of (txStatus, err) \<Rightarrow>
        if err \<noteq> None \<and> err \<noteq> Some ErrNil then (Inl (the err), kv)
        else
          let res = \<lparr>resp_ComponentID = m, ACK = False, resp_TXID = req_TXID req\<rparr> in
          if txStatus = TXTried \<or> txStatus = TXConfirmed then (Inr (res\<lparr>ACK := True\<rparr>), kv)
          else if txStatus = TXCanceled then (Inr res, kv)
          else
            let bizID = ToString (Data req ''biz_id'') in
            (case client_Set kv (BuildTXDetailKey m (req_TXID req)) bizID of
               (Some err1, kv1) \<Rightarrow> (Inl err1, kv1)
             | (None, kv1) \<Rightarrow>
            (case client_SetNX kv1 (BuildDataKey m (req_TXID req) bizID) DataFrozen of
               ((reply, Some err2), kv2) \<Rightarrow> (Inl err2, kv2)
             | ((reply, None), kv2) \<Rightarrow>
                 if reply \<noteq> 1 then (Inr res, kv2)
                 else
                   (case client_Set kv2 (BuildTXKey m (req_TXID req)) TXTried of
                      (Some err3, kv3) \<Rightarrow> (Inl err3, kv3)
                    | (None, kv3) \<Rightarrow> (Inr (res\<lparr>ACK := True\<rparr>), kv3))))))"

definition MockComponent_Confirm ::
  "string \<Rightarrow> string \<Rightarrow> redis \<Rightarrow> (error + TCCResp) \<times> redis" where
  "MockComponent_Confirm m txID kv =
     (case lock_Lock kv (BuildTXLockKey m txID) of
        Some err \<Rightarrow> (Inl err, kv)
      | None \<Rightarrow>
     (case client_Get kv (BuildTXKey m txID) of
        (txStatus, Some err) \<Rightarrow> (Inl err, kv)
      | (txStatus, None) \<Rightarrow>
          let res = \<lparr>resp_ComponentID = m, ACK = False, resp_TXID = txID\<rparr> in
          if txStatus = TXConfirmed then (Inr (res\<lparr>ACK := True\<rparr>), kv)
          else if txStatus \<noteq> TXTried then (Inr res, kv)
          else
            (case client_Get kv (BuildTXDetailKey m txID) of
               (bizID, Some err1) \<Rightarrow> (Inl err1, kv)
             | (bizID, None) \<Rightarrow>
            (case client_Get kv (BuildDataKey m txID bizID) of
               (dataStatus, Some err2) \<Rightarrow> (Inl err2, kv)
             | (dataStatus, None) \<Rightarrow>
                 if dataStatus \<noteq> DataFrozen then (Inr res, kv)
                 else
                   (case client_Set kv (BuildDataKey m txID bizID) DataSuccessful of
                      (Some err3, kv1) \<Rightarrow> (Inl err3, kv1)
                    | (None, kv1) \<Rightarrow>
                        (case client_Set kv1 (BuildTXKey m txID) TXConfirmed of
                           (ignored, kv2) \<Rightarrow> (Inr (res\<lparr>ACK := True\<rparr>), kv2)))))))"

definition MockComponent_Cancel ::
  "string \<Rightarrow> string \<Rightarrow> redis \<Rightarrow> (error + TCCResp) \<times> redis" where
  "MockComponent_Cancel m txID kv =
     (case lock_Lock kv (BuildTXLockKey m txID) of
        Some err \<Rightarrow> (Inl err, kv)
      | None \<Rightarrow>
     (case client_Get kv (BuildTXKey m txID) of (txStatus, err) \<Rightarrow>
        if err \<noteq> None \<and> err \<noteq> Some ErrNil then (Inl (the err), kv)
        else if txStatus = TXConfirmed then (Inl (InvalidTxStatus txStatus txID), kv)
        else
          (case client_Get kv (BuildTXDetailKey m txID) of (bizID, err1) \<Rightarrow>
             if err1 \<noteq> None \<and> err1 = Some ErrNil then (Inl (the err1), kv)
             else
               (case (if bizID \<noteq> '''' then client_Del kv (BuildDataKey m txID bizID)
                      else (None, kv)) of
                  (Some err2, kv1) \<Rightarrow> (Inl err2, kv1)
                | (None, kv1) \<Rightarrow>
                    (case client_Set kv1 (BuildTXKey m txID) TXCanceled of
                       (Some err3, kv2) \<Rightarrow> (Inl err3, kv2)
                     | (None, kv2) \<Rightarrow>
                         (Inr \<lparr>resp_ComponentID = m, ACK = True, resp_TXID = txID\<rparr>, kv2))))))"

text \<open>The sample participant as an implementation of the interface.\<close>

definition NewMockComponent :: "string \<Rightarrow> redis TCCComponent" where
  "NewMockComponent m =
     \<lparr>ID = m, Try = MockComponent_Try m, Confirm = MockComponent_Confirm m,
      Cancel = MockComponent_Cancel m\<rparr>"

section \<open>The registry (txmanager: registryCenter)\<close>

type_synonym 'w registryCenter = "string \<rightharpoonup> 'w TCCComponent"

definition newRegistryCenter :: "'w registryCenter" where
  "newRegistryCenter = Map.empty"

definition register :: "'w registryCenter \<Rightarrow> 'w TCCComponent \<Rightarrow> error option \<times> 'w registryCenter" where
  "register r component =
     (if r (ID component) \<noteq> None then (Some RepeatComponentID, r)
      else (None, r(ID component \<mapsto> component)))"

fun registryCenter_getComponents ::
  "'w registryCenter \<Rightarrow> string list \<Rightarrow> error + 'w TCCComponent list" where
  "registryCenter_getComponents r [] = Inr []"
| "registryCenter_getComponents r (componentID # componentIDs) =
     (case r componentID of
        None \<Rightarrow> Inl (ComponentNotExisted componentID)
      | Some component \<Rightarrow>
          (case registryCenter_getComponents r componentIDs of
             Inl err \<Rightarrow> Inl err
           | Inr components \<Rightarrow> Inr (component # components)))"

section \<open>The store contract (txmanager/txstore.go) and the log of calls\<close>

text \<open>
  The store is an implementation of the interface \<^verbatim>\<open>TXStore\<close>, acting on the same world
  as the participants. Only the methods that \<^verbatim>\<open>Transaction\<close> and \<^verbatim>\<open>advanceProgress\<close>
  call are part of the record.
\<close>

record 'w TXStore =
  CreateTX :: "'w TCCComponent list \<Rightarrow> 'w \<Rightarrow> (error + string) \<times> 'w"
  TXUpdate :: "string \<Rightarrow> string \<Rightarrow> bool \<Rightarrow> 'w \<Rightarrow> error option \<times> 'w"
  TXSubmit :: "string \<Rightarrow> bool \<Rightarrow> 'w \<Rightarrow> error option \<times> 'w"
  GetTX :: "string \<Rightarrow> 'w \<Rightarrow> (error + Transaction) \<times> 'w"

text \<open>
  Every call that the coordinator makes to a participant or to the store is appended,
  with what it returned, to a log kept beside the world. The log is how the properties
  below speak of which calls were made and in which order.
\<close>

datatype event =
    EvCreateTX "string list" "error + string"
  | EvTXUpdate string string bool "error option"
  | EvTXSubmit string bool "error option"
  | EvGetTX string
  | EvTry string string "error + TCCResp"
  | EvConfirm string string "error + TCCResp"
  | EvCancel string string "error + TCCResp"

type_synonym 'w state = "'w \<times> event list"

definition call_Try ::
  "'w TCCComponent \<Rightarrow> TCCReq \<Rightarrow> 'w state \<Rightarrow> (error + TCCResp) \<times> 'w state" where
  "call_Try c req s =
     (case Try c req (fst s) of (r, w) \<Rightarrow> (r, (w, snd s @ [EvTry (ID c) (req_TXID req) r])))"

definition call_Confirm ::
  "'w TCCComponent \<Rightarrow> string \<Rightarrow> 'w state \<Rightarrow> (error + TCCResp) \<times> 'w state" where
  "call_Confirm c txID s =
     (case Confirm c txID (fst s) of (r, w) \<Rightarrow> (r, (w, snd s @ [EvConfirm (ID c) txID r])))"

definition call_Cancel ::
  "'w TCCComponent \<Rightarrow> string \<Rightarrow> 'w state \<Rightarrow> (error + TCCResp) \<times> 'w state" where
  "call_Cancel c txID s =
     (case Cancel c txID (fst s) of (r, w) \<Rightarrow> (r, (w, snd s @ [EvCancel (ID c) txID r])))"

definition call_CreateTX ::
  "'w TXStore \<Rightarrow> 'w TCCComponent list \<Rightarrow> 'w state \<Rightarrow> (error + string) \<times> 'w state" where
  "call_CreateTX st components s =
     (case CreateTX st components (fst s) of
        (r, w) \<Rightarrow> (r, (w, snd s @ [EvCreateTX (map ID components) r])))"

definition call_TXUpdate ::
  "'w TXStore \<Rightarrow> string \<Rightarrow> string \<Rightarrow> bool \<Rightarrow> 'w state \<Rightarrow> error option \<times> 'w state" where
  "call_TXUpdate st txID componentID accept s =
     (case TXUpdate st txID componentID accept (fst s) of
        (r, w) \<Rightarrow> (r, (w, snd s @ [EvTXUpdate txID componentID accept r])))"

definition call_TXSubmit ::
  "'w TXStore \<Rightarrow> string \<Rightarrow> bool \<Rightarrow> 'w state \<Rightarrow> error option \<times> 'w state" where
  "call_TXSubmit st txID success s =
     (case TXSubmit st txID success (fst s) of
        (r, w) \<Rightarrow> (r, (w, snd s @ [EvTXSubmit txID success r])))"

definition call_GetTX ::
  "'w TXStore \<Rightarrow> string \<Rightarrow> 'w state \<Rightarrow> (error + Transaction) \<times> 'w state" where
  "call_GetTX st txID s =
     (case GetTX st txID (fst s) of (r, w) \<Rightarrow> (r, (w, snd s @ [EvGetTX txID])))"

section \<open>The coordinator (txmanager: TXManager)\<close>

record 'w TXManager =
  opts :: Options
  txStore :: "'w TXStore"
  registryCenter :: "'w registryCenter"

subsection \<open>Input validation: getComponents\<close>

text \<open>
  The first loop of \<^verbatim>\<open>getComponents\<close> fills \<^verbatim>\<open>idToReq\<close> and \<^verbatim>\<open>componentIDs\<close> and returns
  at the first identifier seen twice.
\<close>

fun getComponents_dedup ::
  "RequestEntity list \<Rightarrow> (string \<rightharpoonup> RequestEntity) \<Rightarrow> string list \<Rightarrow>
     error + (string \<rightharpoonup> RequestEntity) \<times> string list" where
  "getComponents_dedup [] idToReq componentIDs = Inr (idToReq, componentIDs)"
| "getComponents_dedup (req # reqs) idToReq componentIDs =
     (if idToReq (re_ComponentID req) \<noteq> None then Inl (RepeatComponent (re_ComponentID req))
      else getComponents_dedup reqs (idToReq(re_ComponentID req \<mapsto> req))
             (componentIDs @ [re_ComponentID req]))"

text \<open>
  The second loop builds the entities. \<^verbatim>\<open>idToReq[component.ID()].Request\<close> dereferences
  the nil pointer when the identifier of a component is not a key of \<^verbatim>\<open>idToReq\<close>; that
  panic is the value \<open>NilDereference\<close>.
\<close>

fun getComponents_entities ::
  "(string \<rightharpoonup> RequestEntity) \<Rightarrow> 'w TCCComponent list \<Rightarrow> error + 'w ComponentEntity list" where
  "getComponents_entities idToReq [] = Inr []"
| "getComponents_entities idToReq (component # components) =
     (case idToReq (ID component) of
        None \<Rightarrow> Inl NilDereference
      | Some req \<Rightarrow>
          (case getComponents_entities idToReq components of
             Inl err \<Rightarrow> Inl err
           | Inr entities \<Rightarrow>
               Inr (\<lparr>Request = re_Request req, Component = component\<rparr> # entities)))"

definition getComponents ::
  "'w TXManager \<Rightarrow> RequestEntity list \<Rightarrow> error + 'w ComponentEntity list" where
  "getComponents t reqs =
     (if length reqs = 0 then Inl EmptyTask
      else
        (case getComponents_dedup reqs Map.empty [] of
           Inl err \<Rightarrow> Inl err
         | Inr (idToReq, componentIDs) \<Rightarrow>
             (case registryCenter_getComponents (registryCenter t) componentIDs of
                Inl err \<Rightarrow> Inl err
              | Inr components \<Rightarrow>
                  if length componentIDs \<noteq> length components then Inl InvalidComponentIDs
                  else getComponents_entities idToReq components)))"

subsection \<open>Phase 1: the fan-out of Try\<close>

text \<open>
  \<^verbatim>\<open>twoPhaseCommit\<close> starts one task per entity. A task calls \<^verbatim>\<open>Try\<close>, then \<^verbatim>\<open>TXUpdate\<close>,
  then either sends an error on \<^verbatim>\<open>errCh\<close> or ends. The tasks run concurrently; an
  execution is given by a schedule, the list of the indices of the tasks in the order in
  which they take their steps. A step returns the new state of the task and the error
  that the task sends, if it sends one. The contexts are not modelled: what a deadline or
  a cancellation does to a call is part of what the call returns.
\<close>

datatype task = Ready | Tried "error + TCCResp" | Finished

text \<open>The test \<^verbatim>\<open>err != nil || !resp.ACK\<close>.\<close>

definition tryFailed :: "error + TCCResp \<Rightarrow> bool" where
  "tryFailed r = (case r of Inl err \<Rightarrow> True | Inr resp \<Rightarrow> \<not> ACK resp)"

fun tryTask_step ::
  "'w TXStore \<Rightarrow> string \<Rightarrow> 'w ComponentEntity \<Rightarrow> task \<Rightarrow> 'w state \<Rightarrow>
     (task \<times> error option) \<times> 'w state" where
  "tryTask_step st txID componentEntity Ready s =
     (case call_Try (Component componentEntity)
             \<lparr>req_ComponentID = ID (Component componentEntity), req_TXID = txID,
              Data = Request componentEntity\<rparr> s of
        (r, s1) \<Rightarrow> ((Tried r, None), s1))"
| "tryTask_step st txID componentEntity (Tried r) s =
     (if tryFailed r then
        (case call_TXUpdate st txID (ID (Component componentEntity)) False s of
           (ignored, s1) \<Rightarrow> ((Finished, Some (TryFailed (ID (Component componentEntity)))), s1))
      else
        (case call_TXUpdate st txID (ID (Component componentEntity)) True s of
           (err, s1) \<Rightarrow> ((Finished, err), s1)))"
| "tryTask_step st txID componentEntity Finished s = ((Finished, None), s)"

text \<open>
  The parent receives once from \<^verbatim>\<open>errCh\<close>: the first error sent, or nil when the channel
  is closed after every task has ended. \<open>fanOut\<close> follows the schedule until a task
  sends; when the schedule is used up, \<open>drain\<close> runs the tasks that have not ended to
  their end, in the order of the entities. The state returned is the one at the moment
  the parent receives; what sibling tasks do after that is not part of the call.
\<close>

fun drain ::
  "'w TXStore \<Rightarrow> string \<Rightarrow> ('w ComponentEntity \<times> task) list \<Rightarrow> 'w state \<Rightarrow>
     error option \<times> 'w state" where
  "drain st txID [] s = (None, s)"
| "drain st txID ((componentEntity, Finished) # tasks) s = drain st txID tasks s"
| "drain st txID ((componentEntity, Tried r) # tasks) s =
     (case tryTask_step st txID componentEntity (Tried r) s of
        ((k, Some err), s1) \<Rightarrow> (Some err, s1)
      | ((k, None), s1) \<Rightarrow> drain st txID tasks s1)"
| "drain st txID ((componentEntity, Ready) # tasks) s =
     (case tryTask_step st txID componentEntity Ready s of
        ((k, sent), s1) \<Rightarrow>
          (case tryTask_step st txID componentEntity k s1 of
             ((k2, Some err), s2) \<Rightarrow> (Some err, s2)
           | ((k2, None), s2) \<Rightarrow> drain st txID tasks s2))"

fun fanOut ::
  "'w TXStore \<Rightarrow> string \<Rightarrow> nat list \<Rightarrow> ('w ComponentEntity \<times> task) list \<Rightarrow> 'w state \<Rightarrow>
     error option \<times> 'w state" where
  "fanOut st txID [] tasks s = drain st txID tasks s"
| "fanOut st txID (i # schedule) tasks s =
     (if i < length tasks then
        (case tryTask_step st txID (fst (tasks ! i)) (snd (tasks ! i)) s of
           ((k, Some err), s1) \<Rightarrow> (Some err, s1)
         | ((k, None), s1) \<Rightarrow> fanOut st txID schedule (tasks[i := (fst (tasks ! i), k)]) s1)
      else fanOut st txID schedule tasks s)"

text \<open>
  \<^verbatim>\<open>twoPhaseCommit\<close> returns \<^verbatim>\<open>successful, nil\<close>. The phase-2 advance that it starts with
  \<^verbatim>\<open>go t.advanceProgressByTXID(txID)\<close> is detached: it runs after the call has returned.
\<close>

definition twoPhaseCommit ::
  "'w TXManager \<Rightarrow> nat list \<Rightarrow> string \<Rightarrow> 'w ComponentEntity list \<Rightarrow> 'w state \<Rightarrow>
     (bool \<times> error option) \<times> 'w state" where
  "twoPhaseCommit t schedule txID componentEntities s =
     (case fanOut (txStore t) txID schedule
             (map (\<lambda>componentEntity. (componentEntity, Ready)) componentEntities) s of
        (err, s1) \<Rightarrow> ((if err \<noteq> None then False else True, None), s1))"

definition Transaction ::
  "'w TXManager \<Rightarrow> nat list \<Rightarrow> RequestEntity list \<Rightarrow> 'w state \<Rightarrow>
     (bool \<times> error option) \<times> 'w state" where
  "Transaction t schedule reqs s =
     (case getComponents t reqs of
        Inl err \<Rightarrow> ((False, Some err), s)
      | Inr componentEntities \<Rightarrow>
          (case call_CreateTX (txStore t) (ToComponents componentEntities) s of
             (Inl err, s1) \<Rightarrow> ((False, Some err), s1)
           | (Inr txID, s1) \<Rightarrow> twoPhaseCommit t schedule txID componentEntities s1))"

subsection \<open>Phase 2: advanceProgress\<close>

text \<open>
  The loop over \<^verbatim>\<open>tx.Components\<close>: look the participant up, call \<^verbatim>\<open>Confirm\<close> (when
  \<open>success\<close>) or \<^verbatim>\<open>Cancel\<close>, and return at the first failure.
\<close>

definition confirmOrCancel ::
  "bool \<Rightarrow> string \<Rightarrow> 'w TCCComponent \<Rightarrow> 'w state \<Rightarrow> (error + TCCResp) \<times> 'w state" where
  "confirmOrCancel success txID component s =
     (if success then call_Confirm component txID s else call_Cancel component txID s)"

fun advanceProgress_loop ::
  "'w TXManager \<Rightarrow> bool \<Rightarrow> string \<Rightarrow> ComponentTryEntity list \<Rightarrow> 'w state \<Rightarrow>
     error option \<times> 'w state" where
  "advanceProgress_loop t success txID [] s = (None, s)"
| "advanceProgress_loop t success txID (component # rest) s =
     (case registryCenter_getComponents (registryCenter t) [ComponentID component] of
        Inl err \<Rightarrow> (Some GetTccComponentFailed, s)
      | Inr components \<Rightarrow>
          if length components = 0 then (Some GetTccComponentFailed, s)
          else
            (case confirmOrCancel success txID (components ! 0) s of
               (Inl err, s1) \<Rightarrow> (Some err, s1)
             | (Inr resp, s1) \<Rightarrow>
                 if \<not> ACK resp then (Some (AckFailed (ComponentID component)), s1)
                 else advanceProgress_loop t success txID rest s1))"

text \<open>
  \<^verbatim>\<open>time.Now()\<close> is the parameter \<open>now\<close>; the cutoff \<^verbatim>\<open>time.Now().Add(-t.opts.Timeout)\<close>
  adds the negated 64-bit duration.
\<close>

definition advanceProgress ::
  "'w TXManager \<Rightarrow> int \<Rightarrow> Transaction \<Rightarrow> 'w state \<Rightarrow> error option \<times> 'w state" where
  "advanceProgress t now tx s =
     (let txStatus = getStatus tx (now + sint (- Timeout (opts t))) in
      if txStatus = TXHanging then (None, s)
      else
        let success = (txStatus = TXSuccessful) in
        (case advanceProgress_loop t success (TXID tx) (Components tx) s of
           (Some err, s1) \<Rightarrow> (Some err, s1)
         | (None, s1) \<Rightarrow> call_TXSubmit (txStore t) (TXID tx) success s1))"

definition advanceProgressByTXID ::
  "'w TXManager \<Rightarrow> int \<Rightarrow> string \<Rightarrow> 'w state \<Rightarrow> error option \<times> 'w state" where
  "advanceProgressByTXID t now txID s =
     (case call_GetTX (txStore t) txID s of
        (Inl err, s1) \<Rightarrow> (Some err, s1)
      | (Inr tx, s1) \<Rightarrow> advanceProgress t now tx s1)"

section \<open>Reading the log of calls\<close>

text \<open>
  Phase 2. \<open>registered_ID\<close> is the identifier of the participant that the registry holds
  under a stored \<open>ComponentID\<close>; the two agree in a registry that holds every participant
  under its own identifier (\<open>registry_wf\<close>), as \<open>register\<close> fills it. \<open>phase2_calls\<close> is the
  log of the phase-2 calls on the first participants of a transaction, in their stored
  order, that returned the results \<open>rs\<close>.
\<close>

definition registered_ID :: "'w registryCenter \<Rightarrow> string \<Rightarrow> string" where
  "registered_ID r componentID =
     (case r componentID of None \<Rightarrow> componentID | Some c \<Rightarrow> ID c)"

definition registry_wf :: "'w registryCenter \<Rightarrow> bool" where
  "registry_wf r = (\<forall>i c. r i = Some c \<longrightarrow> ID c = i)"

definition phase2_event :: "bool \<Rightarrow> string \<Rightarrow> string \<Rightarrow> error + TCCResp \<Rightarrow> event" where
  "phase2_event success txID componentID r =
     (if success then EvConfirm componentID txID r else EvCancel componentID txID r)"

definition phase2_calls ::
  "'w registryCenter \<Rightarrow> bool \<Rightarrow> string \<Rightarrow> ComponentTryEntity list \<Rightarrow>
     (error + TCCResp) list \<Rightarrow> event list" where
  "phase2_calls r success txID components rs =
     map2 (\<lambda>component. phase2_event success txID (registered_ID r (ComponentID component)))
       components rs"

text \<open>
  \<open>phase2_op\<close> is the chosen operation on one participant as a function of the world.
  \<open>phase2_results r success txID components rs w w'\<close> says that \<open>rs\<close> are the results that
  the participants registered under the first identifiers of \<open>components\<close> return, when the
  operation is applied to them one after the other in the stored order, starting in the
  world \<open>w\<close> and ending in \<open>w'\<close>. \<open>phase2_error\<close> is the error with which the advance stops
  after a call that returned \<open>r\<close>.
\<close>

definition phase2_op ::
  "bool \<Rightarrow> 'w TCCComponent \<Rightarrow> string \<Rightarrow> 'w \<Rightarrow> (error + TCCResp) \<times> 'w" where
  "phase2_op success c txID w = (if success then Confirm c txID w else Cancel c txID w)"

fun phase2_results ::
  "'w registryCenter \<Rightarrow> bool \<Rightarrow> string \<Rightarrow> ComponentTryEntity list \<Rightarrow>
     (error + TCCResp) list \<Rightarrow> 'w \<Rightarrow> 'w \<Rightarrow> bool" where
  "phase2_results r success txID components [] w w' = (w' = w)"
| "phase2_results r success txID [] (x # rs) w w' = False"
| "phase2_results r success txID (component # components) (x # rs) w w' =
     (case r (ComponentID component) of
        None \<Rightarrow> False
      | Some c \<Rightarrow>
          (case phase2_op success c txID w of
             (y, w1) \<Rightarrow> y = x \<and> phase2_results r success txID components rs w1 w'))"

definition phase2_error :: "string \<Rightarrow> error + TCCResp \<Rightarrow> error" where
  "phase2_error componentID r =
     (case r of Inl err \<Rightarrow> err | Inr resp \<Rightarrow> AckFailed componentID)"

text \<open>
  Phase 1. A logged call is a failure of phase 1 when it is a Try that returned an error
  or ack = false, or a TXUpdate that returned an error.
\<close>

fun phase1_failure :: "event \<Rightarrow> bool" where
  "phase1_failure (EvTry componentID txID r) = tryFailed r"
| "phase1_failure (EvTXUpdate txID componentID accept err) = (err \<noteq> None)"
| "phase1_failure ev = False"

text \<open>
  The invariant of the fan-out. A task that has ended without sending has logged an
  acknowledged Try and a successful \<open>TXUpdate(\<dots>, true)\<close>; a task between its two calls has
  logged its Try; and a logged failure always belongs to a task that has still to send.
\<close>

definition task_done :: "string \<Rightarrow> event list \<Rightarrow> 'w ComponentEntity \<Rightarrow> bool" where
  "task_done txID evs e =
     ((\<exists>resp. ACK resp \<and> EvTry (ID (Component e)) txID (Inr resp) \<in> set evs)
      \<and> EvTXUpdate txID (ID (Component e)) True None \<in> set evs)"

definition task_ok :: "string \<Rightarrow> event list \<Rightarrow> 'w ComponentEntity \<times> task \<Rightarrow> bool" where
  "task_ok txID evs p =
     (case snd p of
        Ready \<Rightarrow> True
      | Tried r \<Rightarrow> EvTry (ID (Component (fst p))) txID r \<in> set evs
      | Finished \<Rightarrow> task_done txID evs (fst p))"

definition pending_failure :: "('w ComponentEntity \<times> task) list \<Rightarrow> bool" where
  "pending_failure tasks = (\<exists>p \<in> set tasks. \<exists>r. snd p = Tried r \<and> tryFailed r)"

definition phase1_inv ::
  "string \<Rightarrow> ('w ComponentEntity \<times> task) list \<Rightarrow> event list \<Rightarrow> bool" where
  "phase1_inv txID tasks evs =
     ((\<forall>p \<in> set tasks. task_ok txID evs p)
      \<and> (list_ex phase1_failure evs \<longrightarrow> pending_failure tasks))"

definition phase1_post ::
  "string \<Rightarrow> 'w ComponentEntity list \<Rightarrow> event list \<Rightarrow> event list \<Rightarrow> error option \<Rightarrow>
     event list \<Rightarrow> bool" where
  "phase1_post txID es tr0 evs err tr' =
     (\<exists>new. tr' = tr0 @ evs @ new
        \<and> (err = None \<longrightarrow> \<not> list_ex phase1_failure (evs @ new)
              \<and> (\<forall>e \<in> set es. task_done txID (evs @ new) e))
        \<and> (err \<noteq> None \<longrightarrow> list_ex phase1_failure (evs @ new)))"

section \<open>A sample coordinator for the concrete runs\<close>

text \<open>
  A store that accepts every call and names every transaction \<^verbatim>\<open>tx1\<close>, and a coordinator
  with the default options (5 s, 10 s) in which the sample participants \<^verbatim>\<open>A\<close> and \<^verbatim>\<open>B\<close>
  are registered. The world is the state of the key-value client.
\<close>

definition example_store :: "redis TXStore" where
  "example_store =
     \<lparr>CreateTX = (\<lambda>components w. (Inr ''tx1'', w)),
      TXUpdate = (\<lambda>txID componentID accept w. (None, w)),
      TXSubmit = (\<lambda>txID success w. (None, w)),
      GetTX = (\<lambda>txID w. (Inl (ExternalError ''no record''), w))\<rparr>"

definition example_manager :: "redis TXManager" where
  "example_manager =
     \<lparr>opts = \<lparr>Timeout = 5000000000, MonitorTick = 10000000000\<rparr>,
      txStore = example_store,
      registryCenter =
        snd (register (snd (register newRegistryCenter (NewMockComponent ''A'')))
               (NewMockComponent ''B''))\<rparr>"

definition example_request :: "string \<Rightarrow> string \<Rightarrow> RequestEntity" where
  "example_request componentID bizID =
     \<lparr>re_ComponentID = componentID, re_Request = [''biz_id'' \<mapsto> bizID]\<rparr>"

text \<open>
  The record of \<^verbatim>\<open>tx1\<close> after both Try calls were accepted, and the state of the client
  in which \<^verbatim>\<open>A\<close> has tried \<^verbatim>\<open>tx1\<close> and \<^verbatim>\<open>B\<close> has already confirmed it.
\<close>

definition example_tx :: Transaction where
  "example_tx =
     \<lparr>TXID = ''tx1'',
      Components = [\<lparr>ComponentID = ''A'', TryStatus = TrySucceesful\<rparr>,
                    \<lparr>ComponentID = ''B'', TryStatus = TrySucceesful\<rparr>],
      Status = TXHanging, CreatedAt = 7\<rparr>"

definition example_world :: redis where
  "example_world =
     [BuildTXKey ''A'' ''tx1'' \<mapsto> TXTried,
      BuildTXDetailKey ''A'' ''tx1'' \<mapsto> ''a1'',
      BuildDataKey ''A'' ''tx1'' ''a1'' \<mapsto> DataFrozen,
      BuildTXKey ''B'' ''tx1'' \<mapsto> TXConfirmed]"

section \<open>Properties of the transaction model\<close>

lemma getStatus_loop_None:
  "getStatus_loop cs h = None \<longleftrightarrow> (\<exists>c \<in> set cs. TryStatus c = TryFailure)"
  by (induction cs arbitrary: h) auto

lemma getStatus_loop_Some:
  "getStatus_loop cs h = Some b \<Longrightarrow>
     b = (h \<or> (\<exists>c \<in> set cs. TryStatus c \<noteq> TrySucceesful))"
  by (induction cs arbitrary: h) (auto split: if_splits)

lemma status_constants_distinct:
  "TXHanging \<noteq> TXSuccessful" "TXHanging \<noteq> TXFailure" "TXSuccessful \<noteq> TXFailure"
  "TXSuccessful \<noteq> TXHanging" "TXFailure \<noteq> TXHanging" "TXFailure \<noteq> TXSuccessful"
  by (simp_all add: TXHanging_def TXSuccessful_def TXFailure_def)

lemma getStatus_eq:
  "getStatus t createdBefore =
     (if CreatedAt t < createdBefore then TXFailure
      else if \<exists>c \<in> set (Components t). TryStatus c = TryFailure then TXFailure
      else if \<exists>c \<in> set (Components t). TryStatus c \<noteq> TrySucceesful then TXHanging
      else TXSuccessful)"
proof (cases "getStatus_loop (Components t) False")
  case None
  then have "\<exists>c \<in> set (Components t). TryStatus c = TryFailure"
    by (simp add: getStatus_loop_None)
  with None show ?thesis
    by (simp add: getStatus_def)
next
  case (Some b)
  have nf: "\<not> (\<exists>c \<in> set (Components t). TryStatus c = TryFailure)"
    using Some getStatus_loop_None [of "Components t" False] by simp
  have "b = (\<exists>c \<in> set (Components t). TryStatus c \<noteq> TrySucceesful)"
    using getStatus_loop_Some [OF Some] by simp
  with Some nf show ?thesis
    by (simp add: getStatus_def)
qed

lemma getStatus_successful_iff:
  "getStatus t createdBefore = TXSuccessful \<longleftrightarrow>
     \<not> CreatedAt t < createdBefore \<and> (\<forall>c \<in> set (Components t). TryStatus c = TrySucceesful)"
  by (auto simp add: getStatus_eq status_constants_distinct TryFailure_def TrySucceesful_def)

text \<open>
  Claim C3, as stated, does not hold: a participant whose try status is none of the three
  constants (the zero value that \<open>NewTransaction\<close> leaves) makes \<open>getStatus\<close> answer
  HANGING where the stated derivation answers SUCCESSFUL.
\<close>

theorem getStatus_spec_counterexample:
  "getStatus (NewTransaction ''tx1'' [\<lparr>Request = Map.empty, Component = NewMockComponent ''A''\<rparr>]) 0
     = TXHanging
   \<and> getStatus_spec (NewTransaction ''tx1'' [\<lparr>Request = Map.empty, Component = NewMockComponent ''A''\<rparr>]) 0
     = TXSuccessful
   \<and> TXHanging \<noteq> TXSuccessful"
  by (simp add: getStatus_def getStatus_spec_def NewTransaction_def NewMockComponent_def
      TXHanging_def TXSuccessful_def TryFailure_def TrySucceesful_def TryHanging_def)

text \<open>
  Claim C3, amended: for every transaction \<open>t\<close> and cutoff that are not the case of a
  timed-out transaction already recorded SUCCESSFUL, \<open>getStatus\<close> derives FAILURE if
  \<open>created_at\<close> is strictly before the cutoff; else FAILURE if some participant try status
  is FAILURE; else HANGING if some participant try status is anything other than
  SUCCESSFUL; else SUCCESSFUL.
\<close>

theorem getStatus_derivation:
  assumes "Status t \<noteq> TXSuccessful \<or> \<not> CreatedAt t < createdBefore"
  shows "getStatus t createdBefore =
     (if CreatedAt t < createdBefore then TXFailure
      else if \<exists>c \<in> set (Components t). TryStatus c = TryFailure then TXFailure
      else if \<exists>c \<in> set (Components t). TryStatus c \<noteq> TrySucceesful then TXHanging
      else TXSuccessful)"
  by (rule getStatus_eq)

theorem getStatus_derivation_witness:
  "getStatus \<lparr>TXID = ''tx1'',
      Components = [\<lparr>ComponentID = ''A'', TryStatus = TrySucceesful\<rparr>,
                    \<lparr>ComponentID = ''B'', TryStatus = TryHanging\<rparr>],
      Status = TXHanging, CreatedAt = 7\<rparr> 5 = TXHanging"
  using getStatus_derivation [of "\<lparr>TXID = ''tx1'',
      Components = [\<lparr>ComponentID = ''A'', TryStatus = TrySucceesful\<rparr>,
                    \<lparr>ComponentID = ''B'', TryStatus = TryHanging\<rparr>],
      Status = TXHanging, CreatedAt = 7\<rparr>" 5]
  by (simp add: TXHanging_def TXSuccessful_def TryFailure_def TrySucceesful_def TryHanging_def)

text \<open>
  Claim C10: a transaction whose list of components is empty and whose \<open>CreatedAt\<close> is
  not strictly before the cutoff is derived SUCCESSFUL; \<open>advanceProgress\<close> then calls no
  participant and goes straight to \<open>TXSubmit\<close> with success = true.
\<close>

theorem getStatus_empty_successful:
  assumes "Components tx = []" and "\<not> CreatedAt tx < createdBefore"
  shows "getStatus tx createdBefore = TXSuccessful
    \<and> (createdBefore = now + sint (- Timeout (opts t)) \<longrightarrow>
         advanceProgress t now tx s = call_TXSubmit (txStore t) (TXID tx) True s)"
proof -
  have st: "getStatus tx createdBefore = TXSuccessful"
    using assms by (simp add: getStatus_def)
  have "advanceProgress t now tx s = call_TXSubmit (txStore t) (TXID tx) True s"
    if "createdBefore = now + sint (- Timeout (opts t))"
    using st assms(1) unfolding that
    by (simp add: advanceProgress_def Let_def status_constants_distinct)
  with st show ?thesis by simp
qed

theorem getStatus_empty_successful_witness:
  "getStatus \<lparr>TXID = ''tx1'', Components = [], Status = TXHanging, CreatedAt = 7\<rparr> 5
     = TXSuccessful
   \<and> advanceProgress example_manager 5000000005
        \<lparr>TXID = ''tx1'', Components = [], Status = TXHanging, CreatedAt = 7\<rparr> (Map.empty, [])
     = (None, (Map.empty, [EvTXSubmit ''tx1'' True None]))"
  using getStatus_empty_successful [of
      "\<lparr>TXID = ''tx1'', Components = [], Status = TXHanging, CreatedAt = 7\<rparr>" 5
      5000000005 example_manager "(Map.empty, [])"]
  by (simp add: example_manager_def example_store_def call_TXSubmit_def)

text \<open>
  Claim C6, as stated, does not hold: \<open>NewTransaction\<close> does not set \<open>TryStatus\<close>, so
  each entity has the zero value, the empty string, which is not the constant
  \<open>TryHanging\<close>.
\<close>

theorem NewTransaction_TryHanging_counterexample:
  "map TryStatus (Components (NewTransaction ''tx1''
       [\<lparr>Request = Map.empty, Component = NewMockComponent ''A''\<rparr>])) = ['''']
   \<and> '''' \<noteq> TryHanging"
  by (simp add: NewTransaction_def TryHanging_def)

text \<open>
  Claim C6, amended: for every list of component entities, each \<open>ComponentTryEntity\<close>
  produced by \<open>NewTransaction\<close> has the zero try status (the empty string), which is neither
  SUCCESSFUL nor FAILURE; the entities carry the identifiers of the components in order,
  and \<open>getStatus\<close> counts every one of them as hanging.
\<close>

theorem NewTransaction_TryStatus:
  "map ComponentID (Components (NewTransaction txID componentEntities))
     = map (\<lambda>e. ID (Component e)) componentEntities
   \<and> (\<forall>c \<in> set (Components (NewTransaction txID componentEntities)).
        TryStatus c = '''' \<and> TryStatus c \<noteq> TrySucceesful \<and> TryStatus c \<noteq> TryFailure)
   \<and> (componentEntities \<noteq> [] \<and> \<not> CreatedAt (NewTransaction txID componentEntities) < createdBefore
        \<longrightarrow> getStatus (NewTransaction txID componentEntities) createdBefore = TXHanging)"
proof -
  have a: "\<forall>c \<in> set (Components (NewTransaction txID componentEntities)).
        TryStatus c = '''' \<and> TryStatus c \<noteq> TrySucceesful \<and> TryStatus c \<noteq> TryFailure"
    by (auto simp add: NewTransaction_def TrySucceesful_def TryFailure_def)
  have b: "map ComponentID (Components (NewTransaction txID componentEntities))
     = map (\<lambda>e. ID (Component e)) componentEntities"
    by (simp add: NewTransaction_def comp_def)
  have c: "componentEntities \<noteq> [] \<Longrightarrow> Components (NewTransaction txID componentEntities) \<noteq> []"
    by (simp add: NewTransaction_def)
  have "componentEntities \<noteq> [] \<Longrightarrow> \<not> CreatedAt (NewTransaction txID componentEntities) < createdBefore
      \<Longrightarrow> getStatus (NewTransaction txID componentEntities) createdBefore = TXHanging"
  proof -
    assume ne: "componentEntities \<noteq> []"
      and nt: "\<not> CreatedAt (NewTransaction txID componentEntities) < createdBefore"
    from c [OF ne] obtain x where x: "x \<in> set (Components (NewTransaction txID componentEntities))"
      by (cases "Components (NewTransaction txID componentEntities)") auto
    with a have "\<exists>c \<in> set (Components (NewTransaction txID componentEntities)).
        TryStatus c \<noteq> TrySucceesful" by blast
    moreover from a have "\<not> (\<exists>c \<in> set (Components (NewTransaction txID componentEntities)).
        TryStatus c = TryFailure)" by blast
    ultimately show ?thesis using nt by (simp only: getStatus_eq if_True if_False)
  qed
  with a b show ?thesis by blast
qed

theorem NewTransaction_TryStatus_witness:
  "map ComponentID (Components (NewTransaction ''tx1''
       [\<lparr>Request = Map.empty, Component = NewMockComponent ''A''\<rparr>,
        \<lparr>Request = Map.empty, Component = NewMockComponent ''B''\<rparr>])) = [''A'', ''B'']
   \<and> map TryStatus (Components (NewTransaction ''tx1''
       [\<lparr>Request = Map.empty, Component = NewMockComponent ''A''\<rparr>,
        \<lparr>Request = Map.empty, Component = NewMockComponent ''B''\<rparr>])) = ['''', '''']
   \<and> getStatus (NewTransaction ''tx1''
       [\<lparr>Request = Map.empty, Component = NewMockComponent ''A''\<rparr>,
        \<lparr>Request = Map.empty, Component = NewMockComponent ''B''\<rparr>]) 0 = TXHanging"
  using NewTransaction_TryStatus [of "''tx1''"
       "[\<lparr>Request = Map.empty, Component = NewMockComponent ''A''\<rparr>,
         \<lparr>Request = Map.empty, Component = NewMockComponent ''B''\<rparr>]" 0]
  by (simp add: NewTransaction_def NewMockComponent_def)


section \<open>Properties of the back-off\<close>

lemma sint_double:
  fixes t :: "64 word"
  assumes "- (2 ^ 62) \<le> sint t" and "sint t < 2 ^ 62"
  shows "sint (push_bit 1 t) = 2 * sint t"
proof -
  have "push_bit 1 t = 2 * t" by (simp add: push_bit_eq_mult)
  then have "sint (push_bit 1 t) = signed_take_bit 63 (2 * sint t)"
    by (simp add: sint_word_ariths word_size mult.commute)
  also have "\<dots> = 2 * sint t"
    using assms by (intro signed_take_bit_int_eq_self) simp_all
  finally show ?thesis .
qed

lemma sint_times8:
  fixes t :: "64 word"
  assumes "- (2 ^ 60) \<le> sint t" and "sint t < 2 ^ 60"
  shows "sint (push_bit 3 t) = 8 * sint t"
proof -
  have "push_bit 3 t = 8 * t" by (simp add: push_bit_eq_mult)
  then have "sint (push_bit 3 t) = signed_take_bit 63 (8 * sint t)"
    by (simp add: sint_word_ariths word_size mult.commute)
  also have "\<dots> = 8 * sint t"
    using assms by (intro signed_take_bit_int_eq_self) simp_all
  finally show ?thesis .
qed

text \<open>
  Claim C9, as stated, does not hold for every positive duration: the shifts are 64-bit.
  With the default MonitorTick of 10 s, the positive duration \<open>2 ^ 62\<close> ns doubles to the
  most negative duration, which is returned uncapped; and with a MonitorTick of
  \<open>2 ^ 60\<close> ns the threshold itself wraps, so that the tick 1 ns yields neither 2 ns nor
  eight times MonitorTick.
\<close>

theorem backOffTick_overflow_counterexample:
  "0 < sint (2 ^ 62 :: Duration)
   \<and> sint (backOffTick \<lparr>Timeout = 5000000000, MonitorTick = 10000000000\<rparr> (2 ^ 62))
       = - (2 ^ 63)
   \<and> 0 < sint (1 :: Duration)
   \<and> 2 * sint (1 :: Duration) \<le> 8 * sint (2 ^ 60 :: Duration)
   \<and> sint (backOffTick \<lparr>Timeout = 5000000000, MonitorTick = 2 ^ 60\<rparr> 1) = - (2 ^ 63)"
  by (simp add: backOffTick_def Let_def word_sless_alt)

text \<open>
  Claim C9, amended: for every duration \<open>t\<close> with \<open>0 < t < 2 ^ 62\<close> ns and every
  MonitorTick between \<open>- (2 ^ 60)\<close> and \<open>2 ^ 60\<close> ns (so that neither shift leaves the
  64-bit range), \<open>backOffTick t\<close> is \<open>2 * t\<close> when \<open>2 * t \<le> 8 * MonitorTick\<close> and exactly
  \<open>8 * MonitorTick\<close> otherwise.
\<close>

theorem backOffTick_capped:
  assumes "0 < sint t" and "sint t < 2 ^ 62"
    and "- (2 ^ 60) \<le> sint (MonitorTick options)" and "sint (MonitorTick options) < 2 ^ 60"
  shows "sint (backOffTick options t) =
     (if 2 * sint t \<le> 8 * sint (MonitorTick options) then 2 * sint t
      else 8 * sint (MonitorTick options))"
proof -
  have d: "sint (push_bit 1 t) = 2 * sint t"
    using assms(1,2) by (intro sint_double) simp_all
  have e: "sint (push_bit 3 (MonitorTick options)) = 8 * sint (MonitorTick options)"
    using assms(3,4) by (intro sint_times8) simp_all
  show ?thesis
    unfolding backOffTick_def Let_def word_sless_alt
    by (simp only: d e split: if_split) simp
qed

theorem backOffTick_capped_witness:
  "sint (backOffTick \<lparr>Timeout = 5000000000, MonitorTick = 10000000000\<rparr> 20000000000)
     = 40000000000
   \<and> sint (backOffTick \<lparr>Timeout = 5000000000, MonitorTick = 10000000000\<rparr> 80000000000)
     = 80000000000"
  using backOffTick_capped [of 20000000000
      "\<lparr>Timeout = 5000000000, MonitorTick = 10000000000\<rparr>"]
    backOffTick_capped [of 80000000000
      "\<lparr>Timeout = 5000000000, MonitorTick = 10000000000\<rparr>"]
  by simp

section \<open>Properties of the sample participant\<close>

lemma keys_distinct:
  "BuildTXKey m t \<noteq> BuildTXDetailKey m t" "BuildTXKey m t \<noteq> BuildTXLockKey m t"
  "BuildTXKey m t \<noteq> BuildDataKey m t b" "BuildTXLockKey m t \<noteq> BuildDataKey m t b"
  "BuildTXDetailKey m t \<noteq> BuildDataKey m t b" "BuildTXDetailKey m t \<noteq> BuildTXLockKey m t"
  by (simp_all add: BuildTXKey_def BuildTXDetailKey_def BuildTXLockKey_def BuildDataKey_def)

text \<open>
  What Cancel does, by the state it finds. From CONFIRMED it returns an error. Otherwise,
  when the detail key of the transaction is present (a Try has run), it acknowledges and
  records the transaction as canceled; when the detail key is absent (no Try has run),
  the test \<^verbatim>\<open>err != nil && errors.Is(err, redis_lock.ErrNil)\<close> returns \<^verbatim>\<open>ErrNil\<close> and
  nothing is recorded.
\<close>

lemma Cancel_confirmed:
  "kv (BuildTXKey m txID) = Some TXConfirmed \<Longrightarrow>
     \<exists>e. MockComponent_Cancel m txID kv = (Inl e, kv)"
  by (simp add: MockComponent_Cancel_def lock_Lock_def client_Get_def)

lemma Cancel_with_detail:
  "kv (BuildTXLockKey m txID) = None \<Longrightarrow> kv (BuildTXKey m txID) \<noteq> Some TXConfirmed \<Longrightarrow>
   kv (BuildTXDetailKey m txID) = Some b \<Longrightarrow>
     \<exists>kv'. MockComponent_Cancel m txID kv
              = (Inr \<lparr>resp_ComponentID = m, ACK = True, resp_TXID = txID\<rparr>, kv')
          \<and> kv' (BuildTXKey m txID) = Some TXCanceled"
  by (cases "kv (BuildTXKey m txID)")
    (auto simp add: MockComponent_Cancel_def lock_Lock_def client_Get_def client_Del_def
      client_Set_def TXConfirmed_def)

lemma Cancel_without_detail:
  "kv (BuildTXLockKey m txID) = None \<Longrightarrow> kv (BuildTXKey m txID) \<noteq> Some TXConfirmed \<Longrightarrow>
   kv (BuildTXDetailKey m txID) = None \<Longrightarrow>
     MockComponent_Cancel m txID kv = (Inl ErrNil, kv)"
  by (cases "kv (BuildTXKey m txID)")
    (auto simp add: MockComponent_Cancel_def lock_Lock_def client_Get_def client_Del_def
      client_Set_def TXConfirmed_def)

lemma Try_after_acknowledged_Cancel:
  "MockComponent_Cancel m txID kv = (Inr resp, kv') \<Longrightarrow> req_TXID req = txID \<Longrightarrow>
     MockComponent_Try m req kv'
       = (Inr \<lparr>resp_ComponentID = m, ACK = False, resp_TXID = txID\<rparr>, kv')"
  by (auto simp add: MockComponent_Cancel_def MockComponent_Try_def lock_Lock_def
      client_Get_def client_Del_def client_Set_def TXConfirmed_def keys_distinct
      keys_distinct [symmetric] TXCanceled_def TXTried_def split: option.splits if_splits)

text \<open>
  Claim C5, as stated, does not hold: with the transaction recorded as canceled, Confirm
  returns a response with ack = false and a nil error.
\<close>

theorem Confirm_after_Cancel_counterexample:
  "MockComponent_Confirm ''A'' ''tx1'' [BuildTXKey ''A'' ''tx1'' \<mapsto> TXCanceled]
     = (Inr \<lparr>resp_ComponentID = ''A'', ACK = False, resp_TXID = ''tx1''\<rparr>,
        [BuildTXKey ''A'' ''tx1'' \<mapsto> TXCanceled])"
  by (simp add: MockComponent_Confirm_def lock_Lock_def client_Get_def BuildTXKey_def
      BuildTXLockKey_def TXCanceled_def TXConfirmed_def TXTried_def)

text \<open>
  Claim C5, amended: for every participant state in which the recorded status of the
  transaction is canceled (and the lock of the transaction is free), a subsequent Confirm
  is rejected in band: it returns a response with ack = false and no error, and changes
  nothing.
\<close>

theorem Confirm_after_Cancel_rejects:
  assumes "kv (BuildTXLockKey m txID) = None" and "kv (BuildTXKey m txID) = Some TXCanceled"
  shows "MockComponent_Confirm m txID kv
     = (Inr \<lparr>resp_ComponentID = m, ACK = False, resp_TXID = txID\<rparr>, kv)"
  using assms
  by (simp add: MockComponent_Confirm_def lock_Lock_def client_Get_def TXCanceled_def
      TXConfirmed_def TXTried_def)

theorem Confirm_after_Cancel_rejects_witness:
  "MockComponent_Confirm ''B'' ''tx2''
      [BuildTXDetailKey ''B'' ''tx2'' \<mapsto> ''b1'', BuildTXKey ''B'' ''tx2'' \<mapsto> TXCanceled]
     = (Inr \<lparr>resp_ComponentID = ''B'', ACK = False, resp_TXID = ''tx2''\<rparr>,
        [BuildTXDetailKey ''B'' ''tx2'' \<mapsto> ''b1'', BuildTXKey ''B'' ''tx2'' \<mapsto> TXCanceled])"
  using Confirm_after_Cancel_rejects [of
      "[BuildTXDetailKey ''B'' ''tx2'' \<mapsto> ''b1'', BuildTXKey ''B'' ''tx2'' \<mapsto> TXCanceled]"
      "''B''" "''tx2''"]
  by (simp add: BuildTXKey_def BuildTXLockKey_def BuildTXDetailKey_def)

text \<open>
  Claim C7 at the state of a participant that has recorded nothing for the transaction
  (Cancel arrives before any Try): Cancel returns the error \<^verbatim>\<open>ErrNil\<close> and records
  nothing, where the claim has it acknowledge and record the transaction as canceled.
\<close>

theorem Cancel_before_Try_fails:
  "MockComponent_Cancel ''A'' ''tx1'' Map.empty = (Inl ErrNil, Map.empty)"
  by (simp add: MockComponent_Cancel_def lock_Lock_def client_Get_def TXConfirmed_def)

text \<open>
  Claim C8 at the same state: Cancel and then Try for the same transaction. The Cancel
  fails and leaves no tombstone, and the Try that follows is acknowledged and freezes the
  data.
\<close>

theorem Cancel_then_Try_acks:
  "(case MockComponent_Cancel ''A'' ''tx1'' Map.empty of
      (r, kv) \<Rightarrow>
        (r, MockComponent_Try ''A''
              \<lparr>req_ComponentID = ''A'', req_TXID = ''tx1'', Data = [''biz_id'' \<mapsto> ''b1'']\<rparr> kv))
   = (Inl ErrNil,
      Inr \<lparr>resp_ComponentID = ''A'', ACK = True, resp_TXID = ''tx1''\<rparr>,
      [BuildTXDetailKey ''A'' ''tx1'' \<mapsto> ''b1'',
       BuildDataKey ''A'' ''tx1'' ''b1'' \<mapsto> DataFrozen,
       BuildTXKey ''A'' ''tx1'' \<mapsto> TXTried])"
  by (simp add: MockComponent_Cancel_def MockComponent_Try_def lock_Lock_def client_Get_def
      client_Set_def client_SetNX_def BuildTXKey_def BuildTXDetailKey_def BuildDataKey_def
      BuildTXLockKey_def TXTried_def TXConfirmed_def TXCanceled_def DataFrozen_def
      ToString_def Let_def)

section \<open>Properties of the coordinator: input validation\<close>

lemma distinct_count_list_le1: "distinct xs \<Longrightarrow> count_list xs x \<le> 1"
  by (induction xs) auto

lemma dedup_Inl:
  "getComponents_dedup reqs m ids = Inl e \<Longrightarrow>
     \<exists>i \<in> set (map re_ComponentID reqs). e = RepeatComponent i \<and>
        (m i \<noteq> None \<or> 2 \<le> count_list (map re_ComponentID reqs) i)"
proof (induction reqs arbitrary: m ids)
  case Nil
  then show ?case by simp
next
  case (Cons req reqs)
  show ?case
  proof (cases "m (re_ComponentID req) \<noteq> None")
    case True
    with Cons.prems show ?thesis by auto
  next
    case False
    with Cons.prems have
      "getComponents_dedup reqs (m(re_ComponentID req \<mapsto> req)) (ids @ [re_ComponentID req]) = Inl e"
      by simp
    from Cons.IH [OF this] obtain i where i: "i \<in> set (map re_ComponentID reqs)"
      "e = RepeatComponent i"
      "(m(re_ComponentID req \<mapsto> req)) i \<noteq> None \<or> 2 \<le> count_list (map re_ComponentID reqs) i"
      by blast
    have "1 \<le> count_list (map re_ComponentID reqs) i"
      using i(1) count_list_0_iff [of "map re_ComponentID reqs" i]
      by (cases "count_list (map re_ComponentID reqs) i") auto
    with i show ?thesis
      by (auto split: if_splits)
  qed
qed

lemma dedup_Inr:
  "getComponents_dedup reqs m ids = Inr (m', ids') \<Longrightarrow>
     ids' = ids @ map re_ComponentID reqs \<and> distinct (map re_ComponentID reqs) \<and>
     (\<forall>r \<in> set reqs. m (re_ComponentID r) = None)"
proof (induction reqs arbitrary: m ids)
  case Nil
  then show ?case by simp
next
  case (Cons req reqs)
  from Cons.prems have a: "m (re_ComponentID req) = None"
    by (auto split: if_splits)
  with Cons.prems have
    "getComponents_dedup reqs (m(re_ComponentID req \<mapsto> req)) (ids @ [re_ComponentID req]) = Inr (m', ids')"
    by simp
  from Cons.IH [OF this] a show ?case
    by (auto split: if_splits)
qed

lemma registry_missing:
  "\<exists>i \<in> set ids. r i = None \<Longrightarrow>
     \<exists>i \<in> set ids. r i = None \<and> registryCenter_getComponents r ids = Inl (ComponentNotExisted i)"
proof (induction ids)
  case Nil
  then show ?case by simp
next
  case (Cons a ids)
  show ?case
  proof (cases "r a")
    case None
    then show ?thesis by auto
  next
    case (Some c)
    with Cons.prems have "\<exists>i \<in> set ids. r i = None" by auto
    from Cons.IH [OF this] Some show ?thesis by auto
  qed
qed

text \<open>
  Claim C4: validation comes before any side effect. If the request set is empty, holds
  a participant identifier twice, or names an identifier that is not registered, then
  \<open>Transaction\<close> returns \<open>(false, err)\<close> with the validation error of the first check
  that fails (empty, then duplicate, then unregistered), and the state, that is the world
  and the log of calls to the store and to the participants, is returned unchanged.
\<close>

theorem Transaction_validation:
  assumes "reqs = [] \<or> \<not> distinct (map re_ComponentID reqs)
            \<or> (\<exists>req \<in> set reqs. registryCenter t (re_ComponentID req) = None)"
  shows "\<exists>err. Transaction t schedule reqs s = ((False, Some err), s)
     \<and> (reqs = [] \<longrightarrow> err = EmptyTask)
     \<and> (reqs \<noteq> [] \<and> \<not> distinct (map re_ComponentID reqs) \<longrightarrow>
          (\<exists>i. err = RepeatComponent i \<and> 2 \<le> count_list (map re_ComponentID reqs) i))
     \<and> (reqs \<noteq> [] \<and> distinct (map re_ComponentID reqs) \<longrightarrow>
          (\<exists>req \<in> set reqs. err = ComponentNotExisted (re_ComponentID req)
              \<and> registryCenter t (re_ComponentID req) = None))"
proof (cases "reqs = []")
  case True
  then show ?thesis by (simp add: Transaction_def getComponents_def)
next
  case ne: False
  show ?thesis
  proof (cases "getComponents_dedup reqs Map.empty []")
    case (Inl e)
    from dedup_Inl [OF Inl] obtain i where i: "e = RepeatComponent i"
      "2 \<le> count_list (map re_ComponentID reqs) i" by auto
    have "\<not> distinct (map re_ComponentID reqs)"
      using i(2) distinct_count_list_le1 [of "map re_ComponentID reqs" i] by auto
    with ne Inl i show ?thesis
      by (auto simp add: Transaction_def getComponents_def)
  next
    case (Inr p)
    obtain m' ids' where p: "p = (m', ids')" by (cases p)
    from dedup_Inr [OF Inr [unfolded p]] have ids: "ids' = map re_ComponentID reqs"
      and d: "distinct (map re_ComponentID reqs)" by auto
    with assms ne have "\<exists>i \<in> set ids'. registryCenter t i = None" by auto
    from registry_missing [OF this] obtain i where i: "i \<in> set ids'"
      "registryCenter t i = None"
      "registryCenter_getComponents (registryCenter t) ids' = Inl (ComponentNotExisted i)"
      by blast
    with ne Inr p d ids show ?thesis
      by (auto simp add: Transaction_def getComponents_def)
  qed
qed

theorem Transaction_validation_witness:
  "Transaction example_manager [] [] (Map.empty, [])
     = ((False, Some EmptyTask), (Map.empty, []))
   \<and> Transaction example_manager [] [example_request ''A'' ''a1'', example_request ''A'' ''a2'']
       (Map.empty, [])
     = ((False, Some (RepeatComponent ''A'')), (Map.empty, []))
   \<and> Transaction example_manager [] [example_request ''A'' ''a1'', example_request ''C'' ''c1'']
       (Map.empty, [])
     = ((False, Some (ComponentNotExisted ''C'')), (Map.empty, []))"
  using Transaction_validation [of "[]" example_manager "[]" "(Map.empty, [])"]
    Transaction_validation [of "[example_request ''A'' ''a1'', example_request ''A'' ''a2'']"
      example_manager "[]" "(Map.empty, [])"]
    Transaction_validation [of "[example_request ''A'' ''a1'', example_request ''C'' ''c1'']"
      example_manager "[]" "(Map.empty, [])"]
  by (simp add: Transaction_def getComponents_def example_manager_def example_request_def
      register_def newRegistryCenter_def NewMockComponent_def)

section \<open>Properties of the coordinator: phase 2\<close>

text \<open>
  A registry that is filled by \<open>register\<close> holds every participant under its own
  identifier, so that \<open>registered_ID\<close> is the stored identifier itself.
\<close>

lemma registry_wf_new: "registry_wf newRegistryCenter"
  by (simp add: registry_wf_def newRegistryCenter_def)

lemma registry_wf_register:
  "registry_wf r \<Longrightarrow> register r c = (err, r') \<Longrightarrow> registry_wf r'"
  by (auto simp add: registry_wf_def register_def split: if_splits)

lemma registered_ID_wf: "registry_wf r \<Longrightarrow> registered_ID r i = i"
  by (auto simp add: registry_wf_def registered_ID_def split: option.splits)

lemma confirmOrCancel_log:
  "confirmOrCancel success txID c s = (r, s') \<Longrightarrow>
     snd s' = snd s @ [phase2_event success txID (ID c) r]"
  by (auto simp add: confirmOrCancel_def call_Confirm_def call_Cancel_def phase2_event_def
      split: prod.splits if_splits)

lemma confirmOrCancel_world:
  "confirmOrCancel success txID c s = (x, s1) \<Longrightarrow>
     phase2_op success c txID (fst s) = (x, fst s1)"
  by (auto simp add: confirmOrCancel_def call_Confirm_def call_Cancel_def phase2_op_def
      split: prod.splits if_splits)

lemma advanceProgress_loop_shape:
  "advanceProgress_loop t success txID comps s = (res, s') \<Longrightarrow>
     \<exists>rs. length rs \<le> length comps
       \<and> phase2_results (registryCenter t) success txID comps rs (fst s) (fst s')
       \<and> snd s' = snd s @ phase2_calls (registryCenter t) success txID comps rs
       \<and> (\<forall>r \<in> set (butlast rs). \<not> tryFailed r)
       \<and> ((res = None \<and> length rs = length comps \<and> (\<forall>r \<in> set rs. \<not> tryFailed r))
          \<or> (rs \<noteq> [] \<and> tryFailed (last rs)
               \<and> res = Some (phase2_error (ComponentID (comps ! (length rs - 1))) (last rs)))
          \<or> ((\<forall>r \<in> set rs. \<not> tryFailed r) \<and> length rs < length comps
               \<and> registryCenter t (ComponentID (comps ! length rs)) = None
               \<and> res = Some GetTccComponentFailed))"
proof (induction comps arbitrary: s)
  case Nil
  then show ?case by (intro exI [of _ "[]"]) (auto simp add: phase2_calls_def)
next
  case (Cons c comps)
  show ?case
  proof (cases "registryCenter t (ComponentID c)")
    case None
    with Cons.prems have "res = Some GetTccComponentFailed" "s' = s" by auto
    with None show ?thesis
      by (intro exI [of _ "[]"]) (simp add: phase2_calls_def)
  next
    case (Some p)
    obtain x s1 where call: "confirmOrCancel success txID p s = (x, s1)"
      by (cases "confirmOrCancel success txID p s")
    have log1: "snd s1 = snd s @ [phase2_event success txID (registered_ID (registryCenter t) (ComponentID c)) x]"
      using confirmOrCancel_log [OF call] Some by (simp add: registered_ID_def)
    have w1: "phase2_op success p txID (fst s) = (x, fst s1)"
      using confirmOrCancel_world [OF call] .
    show ?thesis
    proof (cases "tryFailed x")
      case True
      with Cons.prems Some call have "res = Some (phase2_error (ComponentID c) x)" "s' = s1"
        by (auto simp add: tryFailed_def phase2_error_def split: sum.splits if_splits)
      with True log1 w1 Some show ?thesis
        by (intro exI [of _ "[x]"]) (simp add: phase2_calls_def)
    next
      case False
      with Cons.prems Some call have rest: "advanceProgress_loop t success txID comps s1 = (res, s')"
        by (auto simp add: tryFailed_def split: sum.splits if_splits)
      from Cons.IH [OF rest] obtain rs where rs: "length rs \<le> length comps"
        "phase2_results (registryCenter t) success txID comps rs (fst s1) (fst s')"
        "snd s' = snd s1 @ phase2_calls (registryCenter t) success txID comps rs"
        "\<forall>r \<in> set (butlast rs). \<not> tryFailed r"
        "(res = None \<and> length rs = length comps \<and> (\<forall>r \<in> set rs. \<not> tryFailed r))
          \<or> (rs \<noteq> [] \<and> tryFailed (last rs)
               \<and> res = Some (phase2_error (ComponentID (comps ! (length rs - 1))) (last rs)))
          \<or> ((\<forall>r \<in> set rs. \<not> tryFailed r) \<and> length rs < length comps
               \<and> registryCenter t (ComponentID (comps ! length rs)) = None
               \<and> res = Some GetTccComponentFailed)"
        by (elim exE conjE)
      show ?thesis
      proof (intro exI [of _ "x # rs"] conjI)
        show "length (x # rs) \<le> length (c # comps)" using rs(1) by simp
        show "phase2_results (registryCenter t) success txID (c # comps) (x # rs) (fst s) (fst s')"
          using rs(2) Some w1 by simp
        show "snd s' = snd s @ phase2_calls (registryCenter t) success txID (c # comps) (x # rs)"
          using rs(3) log1 by (simp add: phase2_calls_def)
        show "\<forall>r \<in> set (butlast (x # rs)). \<not> tryFailed r"
          using rs(4) False by auto
        from rs(5) show "(res = None \<and> length (x # rs) = length (c # comps) \<and> (\<forall>r \<in> set (x # rs). \<not> tryFailed r))
          \<or> (x # rs \<noteq> [] \<and> tryFailed (last (x # rs))
               \<and> res = Some (phase2_error (ComponentID ((c # comps) ! (length (x # rs) - 1))) (last (x # rs))))
          \<or> ((\<forall>r \<in> set (x # rs). \<not> tryFailed r) \<and> length (x # rs) < length (c # comps)
               \<and> registryCenter t (ComponentID ((c # comps) ! length (x # rs))) = None
               \<and> res = Some GetTccComponentFailed)"
        proof (elim disjE conjE)
          assume "res = None" "length rs = length comps" "\<forall>r \<in> set rs. \<not> tryFailed r"
          with False show ?thesis by simp
        next
          assume a: "rs \<noteq> []" "tryFailed (last rs)"
            "res = Some (phase2_error (ComponentID (comps ! (length rs - 1))) (last rs))"
          then have "(c # comps) ! (length (x # rs) - 1) = comps ! (length rs - 1)"
            by (cases rs) simp_all
          with a show ?thesis by simp
        next
          assume "\<forall>r \<in> set rs. \<not> tryFailed r" "length rs < length comps"
            "registryCenter t (ComponentID (comps ! length rs)) = None"
            "res = Some GetTccComponentFailed"
          with False show ?thesis by simp
        qed
      qed
    qed
  qed
qed


lemma phase2_calls_no_submit: "EvTXSubmit a b c \<notin> set (phase2_calls r success txID comps rs)"
  by (auto simp add: phase2_calls_def phase2_event_def elim!: in_set_zipE split: if_splits)

lemma call_TXSubmit_world:
  "call_TXSubmit st txID success s1 = (res, s') \<Longrightarrow>
     TXSubmit st txID success (fst s1) = (res, fst s')
     \<and> snd s' = snd s1 @ [EvTXSubmit txID success res]"
  by (auto simp add: call_TXSubmit_def split: prod.splits)

lemma getStatus_three:
  "getStatus tx c = TXHanging \<or> getStatus tx c = TXSuccessful \<or> getStatus tx c = TXFailure"
  by (simp add: getStatus_eq)

text \<open>
  Claim C2: for every transaction record, \<open>advanceProgress\<close> derives one of the three
  statuses and does nothing when it is HANGING. Otherwise it invokes the chosen phase-2
  operation (Confirm when the derived status is SUCCESSFUL, Cancel when it is FAILURE) on
  the participants registered under the stored identifiers, one after the other in the
  stored order: \<open>rs\<close> are the results they returned, from the world of the call to the
  world \<open>w1\<close>, and the log holds exactly these calls. The advance ends in one of three
  ways. Either every participant was called and every call returned ack = true without
  error; then \<open>TXSubmit(txID, status = SUCCESSFUL)\<close> is called in \<open>w1\<close>, is the last
  logged call and gives the result. Or the last call made returned an error or
  ack = false, all calls before it having succeeded; then the result is that error and
  \<open>TXSubmit\<close> is not called. Or the next participant is not registered, all calls made
  having succeeded; then the result is an error and \<open>TXSubmit\<close> is not called. So a
  failing call always gives an error without \<open>TXSubmit\<close>, and \<open>TXSubmit\<close> with
  success = true is logged only when every recorded try status is SUCCESSFUL.
\<close>

theorem advanceProgress_phase2:
  assumes "advanceProgress t now tx s = (res, s')"
  shows "\<exists>rs w1 evs. snd s' = snd s @ evs
     \<and> (getStatus tx (now + sint (- Timeout (opts t))) = TXHanging
        \<or> getStatus tx (now + sint (- Timeout (opts t))) = TXSuccessful
        \<or> getStatus tx (now + sint (- Timeout (opts t))) = TXFailure)
     \<and> (getStatus tx (now + sint (- Timeout (opts t))) = TXHanging \<longrightarrow>
          evs = [] \<and> res = None \<and> s' = s)
     \<and> (getStatus tx (now + sint (- Timeout (opts t))) \<noteq> TXHanging \<longrightarrow>
          length rs \<le> length (Components tx)
          \<and> phase2_results (registryCenter t)
               (getStatus tx (now + sint (- Timeout (opts t))) = TXSuccessful)
               (TXID tx) (Components tx) rs (fst s) w1
          \<and> (\<forall>r \<in> set (butlast rs). \<not> tryFailed r)
          \<and> ((length rs = length (Components tx) \<and> (\<forall>r \<in> set rs. \<not> tryFailed r)
               \<and> TXSubmit (txStore t) (TXID tx)
                    (getStatus tx (now + sint (- Timeout (opts t))) = TXSuccessful) w1
                  = (res, fst s')
               \<and> evs = phase2_calls (registryCenter t)
                    (getStatus tx (now + sint (- Timeout (opts t))) = TXSuccessful)
                    (TXID tx) (Components tx) rs
                  @ [EvTXSubmit (TXID tx)
                       (getStatus tx (now + sint (- Timeout (opts t))) = TXSuccessful) res])
             \<or> (rs \<noteq> [] \<and> tryFailed (last rs)
               \<and> res = Some (phase2_error
                    (ComponentID (Components tx ! (length rs - 1))) (last rs))
               \<and> evs = phase2_calls (registryCenter t)
                    (getStatus tx (now + sint (- Timeout (opts t))) = TXSuccessful)
                    (TXID tx) (Components tx) rs
               \<and> fst s' = w1)
             \<or> ((\<forall>r \<in> set rs. \<not> tryFailed r) \<and> length rs < length (Components tx)
               \<and> registryCenter t (ComponentID (Components tx ! length rs)) = None
               \<and> res = Some GetTccComponentFailed
               \<and> evs = phase2_calls (registryCenter t)
                    (getStatus tx (now + sint (- Timeout (opts t))) = TXSuccessful)
                    (TXID tx) (Components tx) rs
               \<and> fst s' = w1)))
     \<and> ((\<exists>r \<in> set rs. tryFailed r) \<longrightarrow>
            res \<noteq> None \<and> (\<forall>txID success u. EvTXSubmit txID success u \<notin> set evs))
     \<and> (\<forall>u. EvTXSubmit (TXID tx) True u \<in> set evs \<longrightarrow>
            (\<forall>c \<in> set (Components tx). TryStatus c = TrySucceesful))"
proof -
  define st where "st = getStatus tx (now + sint (- Timeout (opts t)))"
  define calls where
    "calls = phase2_calls (registryCenter t) (st = TXSuccessful) (TXID tx) (Components tx)"
  define results where
    "results = phase2_results (registryCenter t) (st = TXSuccessful) (TXID tx) (Components tx)"
  define submit where "submit = TXSubmit (txStore t) (TXID tx) (st = TXSuccessful)"
  define comps where "comps = Components tx"
  define missing where "missing = (\<lambda>n. registryCenter t (ComponentID (comps ! n)) = None)"
  define stop where "stop = (\<lambda>rs. Some (phase2_error (ComponentID (comps ! (length rs - 1))) (last rs)))"
  have three: "st = TXHanging \<or> st = TXSuccessful \<or> st = TXFailure"
    unfolding st_def by (rule getStatus_three)
  have goal: "\<exists>rs w1 evs. snd s' = snd s @ evs
     \<and> (st = TXHanging \<or> st = TXSuccessful \<or> st = TXFailure)
     \<and> (st = TXHanging \<longrightarrow> evs = [] \<and> res = None \<and> s' = s)
     \<and> (st \<noteq> TXHanging \<longrightarrow>
          length rs \<le> length comps
          \<and> results rs (fst s) w1
          \<and> (\<forall>r \<in> set (butlast rs). \<not> tryFailed r)
          \<and> ((length rs = length comps \<and> (\<forall>r \<in> set rs. \<not> tryFailed r)
               \<and> submit w1 = (res, fst s')
               \<and> evs = calls rs @ [EvTXSubmit (TXID tx) (st = TXSuccessful) res])
             \<or> (rs \<noteq> [] \<and> tryFailed (last rs) \<and> res = stop rs \<and> evs = calls rs \<and> fst s' = w1)
             \<or> ((\<forall>r \<in> set rs. \<not> tryFailed r) \<and> length rs < length comps
               \<and> missing (length rs) \<and> res = Some GetTccComponentFailed
               \<and> evs = calls rs \<and> fst s' = w1)))
     \<and> ((\<exists>r \<in> set rs. tryFailed r) \<longrightarrow>
            res \<noteq> None \<and> (\<forall>txID success u. EvTXSubmit txID success u \<notin> set evs))
     \<and> (\<forall>u. EvTXSubmit (TXID tx) True u \<in> set evs \<longrightarrow>
            (\<forall>c \<in> set comps. TryStatus c = TrySucceesful))"
  proof (cases "st = TXHanging")
    case True
    with assms have "res = None" "s' = s"
      by (simp_all add: advanceProgress_def Let_def st_def)
    with True show ?thesis
      by (intro exI [of _ "[]"] exI [of _ "fst s"]) simp
  next
    case False
    obtain e s1 where loop:
      "advanceProgress_loop t (st = TXSuccessful) (TXID tx) (Components tx) s = (e, s1)"
      by (cases "advanceProgress_loop t (st = TXSuccessful) (TXID tx) (Components tx) s")
    from advanceProgress_loop_shape [OF loop] obtain rs where rs:
      "length rs \<le> length comps"
      "results rs (fst s) (fst s1)"
      "snd s1 = snd s @ calls rs"
      "\<forall>r \<in> set (butlast rs). \<not> tryFailed r"
      "(e = None \<and> length rs = length comps \<and> (\<forall>r \<in> set rs. \<not> tryFailed r))
          \<or> (rs \<noteq> [] \<and> tryFailed (last rs) \<and> e = stop rs)
          \<or> ((\<forall>r \<in> set rs. \<not> tryFailed r) \<and> length rs < length comps
               \<and> missing (length rs) \<and> e = Some GetTccComponentFailed)"
      unfolding calls_def results_def comps_def missing_def stop_def by (elim exE conjE)
    have nosub: "\<And>txID success u. EvTXSubmit txID success u \<notin> set (calls rs)"
      unfolding calls_def by (rule phase2_calls_no_submit)
    have stopped: "res = e \<and> s' = s1" if "e \<noteq> None"
      using that assms False loop
      by (auto simp add: advanceProgress_def Let_def st_def)
    from rs(5) show ?thesis
    proof (elim disjE conjE)
      assume e: "e = None" and len: "length rs = length comps"
        and all: "\<forall>r \<in> set rs. \<not> tryFailed r"
      from e assms False loop have
        "call_TXSubmit (txStore t) (TXID tx) (st = TXSuccessful) s1 = (res, s')"
        by (simp add: advanceProgress_def Let_def st_def)
      from call_TXSubmit_world [OF this]
      have sub: "submit (fst s1) = (res, fst s')"
        and log: "snd s' = snd s1 @ [EvTXSubmit (TXID tx) (st = TXSuccessful) res]"
        by (simp_all add: submit_def)
      have succ: "st = TXSuccessful \<Longrightarrow> \<forall>c \<in> set comps. TryStatus c = TrySucceesful"
        unfolding st_def comps_def by (simp add: getStatus_successful_iff)
      define evs where "evs = calls rs @ [EvTXSubmit (TXID tx) (st = TXSuccessful) res]"
      have mem: "\<And>u. EvTXSubmit (TXID tx) True u \<in> set evs \<Longrightarrow> st = TXSuccessful"
        unfolding evs_def using nosub by auto
      show ?thesis
      proof (intro exI [of _ rs] exI [of _ "fst s1"] exI [of _ evs] conjI)
        show "snd s' = snd s @ evs" using log rs(3) by (simp add: evs_def)
        show "st = TXHanging \<or> st = TXSuccessful \<or> st = TXFailure" by (rule three)
        show "st = TXHanging \<longrightarrow> evs = [] \<and> res = None \<and> s' = s" using False by simp
        show "st \<noteq> TXHanging \<longrightarrow>
          length rs \<le> length comps
          \<and> results rs (fst s) (fst s1)
          \<and> (\<forall>r \<in> set (butlast rs). \<not> tryFailed r)
          \<and> ((length rs = length comps \<and> (\<forall>r \<in> set rs. \<not> tryFailed r)
               \<and> submit (fst s1) = (res, fst s')
               \<and> evs = calls rs @ [EvTXSubmit (TXID tx) (st = TXSuccessful) res])
             \<or> (rs \<noteq> [] \<and> tryFailed (last rs) \<and> res = stop rs \<and> evs = calls rs \<and> fst s' = fst s1)
             \<or> ((\<forall>r \<in> set rs. \<not> tryFailed r) \<and> length rs < length comps
               \<and> missing (length rs) \<and> res = Some GetTccComponentFailed
               \<and> evs = calls rs \<and> fst s' = fst s1))"
          using rs(1,2,4) len all sub by (simp add: evs_def)
        show "(\<exists>r \<in> set rs. tryFailed r) \<longrightarrow>
            res \<noteq> None \<and> (\<forall>txID success u. EvTXSubmit txID success u \<notin> set evs)"
          using all by simp
        show "\<forall>u. EvTXSubmit (TXID tx) True u \<in> set evs \<longrightarrow>
            (\<forall>c \<in> set comps. TryStatus c = TrySucceesful)"
          using mem succ by blast
      qed
    next
      assume ne: "rs \<noteq> []" and bad: "tryFailed (last rs)" and e: "e = stop rs"
      then have "e \<noteq> None" by (simp add: stop_def)
      from stopped [OF this] e have r: "res = stop rs" "s' = s1" by simp_all
      then have rn: "res \<noteq> None" by (simp add: stop_def)
      show ?thesis
      proof (intro exI [of _ rs] exI [of _ "fst s1"] exI [of _ "calls rs"] conjI)
        show "snd s' = snd s @ calls rs" using rs(3) r by simp
        show "st = TXHanging \<or> st = TXSuccessful \<or> st = TXFailure" by (rule three)
        show "st = TXHanging \<longrightarrow> calls rs = [] \<and> res = None \<and> s' = s" using False by simp
        show "st \<noteq> TXHanging \<longrightarrow>
          length rs \<le> length comps
          \<and> results rs (fst s) (fst s1)
          \<and> (\<forall>r \<in> set (butlast rs). \<not> tryFailed r)
          \<and> ((length rs = length comps \<and> (\<forall>r \<in> set rs. \<not> tryFailed r)
               \<and> submit (fst s1) = (res, fst s')
               \<and> calls rs = calls rs @ [EvTXSubmit (TXID tx) (st = TXSuccessful) res])
             \<or> (rs \<noteq> [] \<and> tryFailed (last rs) \<and> res = stop rs \<and> calls rs = calls rs \<and> fst s' = fst s1)
             \<or> ((\<forall>r \<in> set rs. \<not> tryFailed r) \<and> length rs < length comps
               \<and> missing (length rs) \<and> res = Some GetTccComponentFailed
               \<and> calls rs = calls rs \<and> fst s' = fst s1))"
          using rs(1,2,4) ne bad r by simp
        show "(\<exists>r \<in> set rs. tryFailed r) \<longrightarrow>
            res \<noteq> None \<and> (\<forall>txID success u. EvTXSubmit txID success u \<notin> set (calls rs))"
          using rn nosub by simp
        show "\<forall>u. EvTXSubmit (TXID tx) True u \<in> set (calls rs) \<longrightarrow>
            (\<forall>c \<in> set comps. TryStatus c = TrySucceesful)"
          using nosub by simp
      qed
    next
      assume all: "\<forall>r \<in> set rs. \<not> tryFailed r" and len: "length rs < length comps"
        and miss: "missing (length rs)" and e: "e = Some GetTccComponentFailed"
      then have "e \<noteq> None" by simp
      from stopped [OF this] e have r: "res = Some GetTccComponentFailed" "s' = s1" by simp_all
      show ?thesis
      proof (intro exI [of _ rs] exI [of _ "fst s1"] exI [of _ "calls rs"] conjI)
        show "snd s' = snd s @ calls rs" using rs(3) r by simp
        show "st = TXHanging \<or> st = TXSuccessful \<or> st = TXFailure" by (rule three)
        show "st = TXHanging \<longrightarrow> calls rs = [] \<and> res = None \<and> s' = s" using False by simp
        show "st \<noteq> TXHanging \<longrightarrow>
          length rs \<le> length comps
          \<and> results rs (fst s) (fst s1)
          \<and> (\<forall>r \<in> set (butlast rs). \<not> tryFailed r)
          \<and> ((length rs = length comps \<and> (\<forall>r \<in> set rs. \<not> tryFailed r)
               \<and> submit (fst s1) = (res, fst s')
               \<and> calls rs = calls rs @ [EvTXSubmit (TXID tx) (st = TXSuccessful) res])
             \<or> (rs \<noteq> [] \<and> tryFailed (last rs) \<and> res = stop rs \<and> calls rs = calls rs \<and> fst s' = fst s1)
             \<or> ((\<forall>r \<in> set rs. \<not> tryFailed r) \<and> length rs < length comps
               \<and> missing (length rs) \<and> res = Some GetTccComponentFailed
               \<and> calls rs = calls rs \<and> fst s' = fst s1))"
          using rs(1,2,4) all len miss r by simp
        show "(\<exists>r \<in> set rs. tryFailed r) \<longrightarrow>
            res \<noteq> None \<and> (\<forall>txID success u. EvTXSubmit txID success u \<notin> set (calls rs))"
          using all by simp
        show "\<forall>u. EvTXSubmit (TXID tx) True u \<in> set (calls rs) \<longrightarrow>
            (\<forall>c \<in> set comps. TryStatus c = TrySucceesful)"
          using nosub by simp
      qed
    qed
  qed
  then show ?thesis
    unfolding st_def calls_def results_def submit_def comps_def missing_def stop_def .
qed

theorem advanceProgress_phase2_witness:
  "advanceProgress example_manager 10 example_tx (example_world, [])
     = (None,
        ([BuildTXDetailKey ''A'' ''tx1'' \<mapsto> ''a1'',
          BuildTXKey ''B'' ''tx1'' \<mapsto> TXConfirmed,
          BuildDataKey ''A'' ''tx1'' ''a1'' \<mapsto> DataSuccessful,
          BuildTXKey ''A'' ''tx1'' \<mapsto> TXConfirmed],
         [EvConfirm ''A'' ''tx1'' (Inr \<lparr>resp_ComponentID = ''A'', ACK = True, resp_TXID = ''tx1''\<rparr>),
          EvConfirm ''B'' ''tx1'' (Inr \<lparr>resp_ComponentID = ''B'', ACK = True, resp_TXID = ''tx1''\<rparr>),
          EvTXSubmit ''tx1'' True None]))
   \<and> list_all (\<lambda>c. TryStatus c = TrySucceesful) (Components example_tx)
   \<and> advanceProgress example_manager 10
        (example_tx\<lparr>Components :=
           [\<lparr>ComponentID = ''A'', TryStatus = TrySucceesful\<rparr>,
            \<lparr>ComponentID = ''B'', TryStatus = TryFailure\<rparr>]\<rparr>)
        ([BuildTXKey ''A'' ''tx1'' \<mapsto> TXTried,
          BuildTXDetailKey ''A'' ''tx1'' \<mapsto> ''a1'',
          BuildDataKey ''A'' ''tx1'' ''a1'' \<mapsto> DataFrozen,
          BuildTXDetailKey ''B'' ''tx1'' \<mapsto> ''b1''], [])
     = (None,
        ([BuildTXDetailKey ''A'' ''tx1'' \<mapsto> ''a1'',
          BuildTXDetailKey ''B'' ''tx1'' \<mapsto> ''b1'',
          BuildTXKey ''A'' ''tx1'' \<mapsto> TXCanceled,
          BuildTXKey ''B'' ''tx1'' \<mapsto> TXCanceled],
         [EvCancel ''A'' ''tx1'' (Inr \<lparr>resp_ComponentID = ''A'', ACK = True, resp_TXID = ''tx1''\<rparr>),
          EvCancel ''B'' ''tx1'' (Inr \<lparr>resp_ComponentID = ''B'', ACK = True, resp_TXID = ''tx1''\<rparr>),
          EvTXSubmit ''tx1'' False None]))"
proof -
  have run: "advanceProgress example_manager 10 example_tx (example_world, [])
     = (None,
        ([BuildTXDetailKey ''A'' ''tx1'' \<mapsto> ''a1'',
          BuildTXKey ''B'' ''tx1'' \<mapsto> TXConfirmed,
          BuildDataKey ''A'' ''tx1'' ''a1'' \<mapsto> DataSuccessful,
          BuildTXKey ''A'' ''tx1'' \<mapsto> TXConfirmed],
         [EvConfirm ''A'' ''tx1'' (Inr \<lparr>resp_ComponentID = ''A'', ACK = True, resp_TXID = ''tx1''\<rparr>),
          EvConfirm ''B'' ''tx1'' (Inr \<lparr>resp_ComponentID = ''B'', ACK = True, resp_TXID = ''tx1''\<rparr>),
          EvTXSubmit ''tx1'' True None]))"
    by (simp add: advanceProgress_def getStatus_def confirmOrCancel_def call_Confirm_def
        call_Cancel_def call_TXSubmit_def example_manager_def example_store_def
        example_tx_def example_world_def register_def newRegistryCenter_def
        NewMockComponent_def MockComponent_Confirm_def MockComponent_Cancel_def
        lock_Lock_def client_Get_def client_Set_def client_Del_def
        BuildTXKey_def BuildTXDetailKey_def BuildDataKey_def BuildTXLockKey_def
        TXTried_def TXConfirmed_def TXCanceled_def DataFrozen_def DataSuccessful_def
        TXHanging_def TXSuccessful_def TXFailure_def TrySucceesful_def TryFailure_def
        Let_def)
  have run2: "advanceProgress example_manager 10
        (example_tx\<lparr>Components :=
           [\<lparr>ComponentID = ''A'', TryStatus = TrySucceesful\<rparr>,
            \<lparr>ComponentID = ''B'', TryStatus = TryFailure\<rparr>]\<rparr>)
        ([BuildTXKey ''A'' ''tx1'' \<mapsto> TXTried,
          BuildTXDetailKey ''A'' ''tx1'' \<mapsto> ''a1'',
          BuildDataKey ''A'' ''tx1'' ''a1'' \<mapsto> DataFrozen,
          BuildTXDetailKey ''B'' ''tx1'' \<mapsto> ''b1''], [])
     = (None,
        ([BuildTXDetailKey ''A'' ''tx1'' \<mapsto> ''a1'',
          BuildTXDetailKey ''B'' ''tx1'' \<mapsto> ''b1'',
          BuildTXKey ''A'' ''tx1'' \<mapsto> TXCanceled,
          BuildTXKey ''B'' ''tx1'' \<mapsto> TXCanceled],
         [EvCancel ''A'' ''tx1'' (Inr \<lparr>resp_ComponentID = ''A'', ACK = True, resp_TXID = ''tx1''\<rparr>),
          EvCancel ''B'' ''tx1'' (Inr \<lparr>resp_ComponentID = ''B'', ACK = True, resp_TXID = ''tx1''\<rparr>),
          EvTXSubmit ''tx1'' False None]))"
    by (simp add: advanceProgress_def getStatus_def confirmOrCancel_def call_Confirm_def
        call_Cancel_def call_TXSubmit_def example_manager_def example_store_def
        example_tx_def example_world_def register_def newRegistryCenter_def
        NewMockComponent_def MockComponent_Confirm_def MockComponent_Cancel_def
        lock_Lock_def client_Get_def client_Set_def client_Del_def
        BuildTXKey_def BuildTXDetailKey_def BuildDataKey_def BuildTXLockKey_def
        TXTried_def TXConfirmed_def TXCanceled_def DataFrozen_def DataSuccessful_def
        TXHanging_def TXSuccessful_def TXFailure_def TrySucceesful_def TryFailure_def
        Let_def)
  from advanceProgress_phase2 [OF run] obtain rs w1 evs where
    a: "snd (Map.empty :: redis, [EvConfirm ''A'' ''tx1'' (Inr \<lparr>resp_ComponentID = ''A'', ACK = True, resp_TXID = ''tx1''\<rparr>),
          EvConfirm ''B'' ''tx1'' (Inr \<lparr>resp_ComponentID = ''B'', ACK = True, resp_TXID = ''tx1''\<rparr>),
          EvTXSubmit ''tx1'' True None]) = [] @ evs"
    and b: "\<forall>u. EvTXSubmit (TXID example_tx) True u \<in> set evs \<longrightarrow>
            (\<forall>c \<in> set (Components example_tx). TryStatus c = TrySucceesful)"
    by (auto simp add: snd_def)
  have "EvTXSubmit (TXID example_tx) True None \<in> set evs"
    using a [symmetric] by (simp add: example_tx_def)
  with b have "\<forall>c \<in> set (Components example_tx). TryStatus c = TrySucceesful" by blast
  with run run2 show ?thesis by (simp only: list_all_iff simp_thms)
qed

section \<open>Properties of the coordinator: phase 1\<close>

lemma task_done_mono: "task_done txID evs e \<Longrightarrow> task_done txID (evs @ new) e"
  by (auto simp add: task_done_def)

lemma task_ok_mono: "task_ok txID evs p \<Longrightarrow> task_ok txID (evs @ new) p"
  by (auto simp add: task_ok_def task_done_mono split: task.splits)

lemma call_Try_log:
  "call_Try c req (w, tr) = (r, s') \<Longrightarrow> snd s' = tr @ [EvTry (ID c) (req_TXID req) r]"
  by (auto simp add: call_Try_def split: prod.splits)

lemma call_TXUpdate_log:
  "call_TXUpdate st txID i a (w, tr) = (u, s') \<Longrightarrow> snd s' = tr @ [EvTXUpdate txID i a u]"
  by (auto simp add: call_TXUpdate_def split: prod.splits)

text \<open>One step of one task, described by the events it appends.\<close>

lemma tryTask_step_cases:
  assumes "tryTask_step st txID e k (w, tr) = ((k', sent), s')"
  shows "(k = Ready \<and> (\<exists>r. k' = Tried r \<and> sent = None \<and> snd s' = tr @ [EvTry (ID (Component e)) txID r]))
       \<or> (\<exists>r u. k = Tried r \<and> tryFailed r \<and> k' = Finished \<and> sent = Some (TryFailed (ID (Component e)))
             \<and> snd s' = tr @ [EvTXUpdate txID (ID (Component e)) False u])
       \<or> (\<exists>r. k = Tried r \<and> \<not> tryFailed r \<and> k' = Finished
             \<and> snd s' = tr @ [EvTXUpdate txID (ID (Component e)) True sent])
       \<or> (k = Finished \<and> k' = Finished \<and> sent = None \<and> s' = (w, tr))"
proof (cases k)
  case Ready
  with assms show ?thesis
    by (auto split: prod.splits dest!: call_Try_log)
next
  case (Tried r)
  with assms show ?thesis
    by (auto split: prod.splits if_splits dest!: call_TXUpdate_log)
next
  case Finished
  with assms show ?thesis by auto
qed


lemma not_tryFailed_ack: "\<not> tryFailed r \<Longrightarrow> \<exists>resp. r = Inr resp \<and> ACK resp"
  by (cases r) (auto simp add: tryFailed_def)

lemma step_inv:
  assumes inv: "phase1_inv txID (pre @ (e, k) # post) evs"
    and step: "tryTask_step st txID e k (w, tr0 @ evs) = ((k', sent), s')"
  shows "\<exists>new. snd s' = tr0 @ evs @ new
     \<and> (sent = None \<longrightarrow> phase1_inv txID (pre @ (e, k') # post) (evs @ new))
     \<and> (sent \<noteq> None \<longrightarrow> list_ex phase1_failure (evs @ new))"
proof -
  from inv have ok: "\<forall>p \<in> set pre \<union> set post. task_ok txID evs p"
    and okk: "task_ok txID evs (e, k)"
    and pf: "list_ex phase1_failure evs \<Longrightarrow> pending_failure (pre @ (e, k) # post)"
    by (auto simp add: phase1_inv_def)
  from tryTask_step_cases [OF step]
  consider
    (ready) r where "k = Ready" "k' = Tried r" "sent = None"
      "snd s' = (tr0 @ evs) @ [EvTry (ID (Component e)) txID r]"
  | (failed) r u where "k = Tried r" "tryFailed r" "k' = Finished"
      "sent = Some (TryFailed (ID (Component e)))"
      "snd s' = (tr0 @ evs) @ [EvTXUpdate txID (ID (Component e)) False u]"
  | (acked) r where "k = Tried r" "\<not> tryFailed r" "k' = Finished"
      "snd s' = (tr0 @ evs) @ [EvTXUpdate txID (ID (Component e)) True sent]"
  | (finished) "k = Finished" "k' = Finished" "sent = None" "s' = (w, tr0 @ evs)"
    by blast
  then show ?thesis
  proof cases
    case ready
    let ?new = "[EvTry (ID (Component e)) txID r]"
    have a: "\<forall>p \<in> set (pre @ (e, k') # post). task_ok txID (evs @ ?new) p"
      using ok ready(2) by (auto simp add: task_ok_mono) (simp add: task_ok_def)
    have b: "list_ex phase1_failure (evs @ ?new) \<Longrightarrow> pending_failure (pre @ (e, k') # post)"
    proof -
      assume "list_ex phase1_failure (evs @ ?new)"
      then consider "list_ex phase1_failure evs" | "tryFailed r" by auto
      then show ?thesis
      proof cases
        case 1
        from pf [OF 1] ready(1) show ?thesis by (auto simp add: pending_failure_def)
      next
        case 2
        with ready(2) show ?thesis by (auto simp add: pending_failure_def)
      qed
    qed
    from a b ready(3,4) show ?thesis
      by (intro exI [of _ ?new]) (simp add: phase1_inv_def)
  next
    case failed
    from okk failed(1) have "EvTry (ID (Component e)) txID r \<in> set evs"
      by (simp add: task_ok_def)
    with failed(2) have "list_ex phase1_failure evs"
      by (auto simp add: list_ex_iff intro!: bexI [of _ "EvTry (ID (Component e)) txID r"])
    with failed show ?thesis
      by (intro exI [of _ "[EvTXUpdate txID (ID (Component e)) False u]"]) simp
  next
    case acked
    let ?new = "[EvTXUpdate txID (ID (Component e)) True sent]"
    show ?thesis
    proof (cases sent)
      case (Some err)
      with acked show ?thesis
        by (intro exI [of _ ?new]) simp
    next
      case None
      from okk acked(1) have tr: "EvTry (ID (Component e)) txID r \<in> set evs"
        by (simp add: task_ok_def)
      from not_tryFailed_ack [OF acked(2)] obtain resp where resp: "r = Inr resp" "ACK resp"
        by blast
      have d: "task_ok txID (evs @ ?new) (e, k')"
        using tr resp acked(3) None by (auto simp add: task_ok_def task_done_def)
      have a: "\<forall>p \<in> set (pre @ (e, k') # post). task_ok txID (evs @ ?new) p"
        using ok d by (auto simp add: task_ok_mono)
      have b: "list_ex phase1_failure (evs @ ?new) \<Longrightarrow> pending_failure (pre @ (e, k') # post)"
      proof -
        assume "list_ex phase1_failure (evs @ ?new)"
        with None have "list_ex phase1_failure evs" by auto
        from pf [OF this] acked(1,2) show ?thesis by (auto simp add: pending_failure_def)
      qed
      from a b None acked(4) show ?thesis
        by (intro exI [of _ ?new]) (simp add: phase1_inv_def)
    qed
  next
    case finished
    with inv show ?thesis
      by (intro exI [of _ "[]"]) simp
  qed
qed


lemma inv_tail:
  assumes "phase1_inv txID ((e, Finished) # rest) evs"
  shows "phase1_inv txID rest evs \<and> task_done txID evs e"
  using assms by (auto simp add: phase1_inv_def pending_failure_def task_ok_def)

lemma step_Ready:
  "tryTask_step st txID e Ready s = ((k, sent), s1) \<Longrightarrow> sent = None \<and> (\<exists>r. k = Tried r)"
  by (auto split: prod.splits)

lemma step_Tried:
  "tryTask_step st txID e (Tried r) s = ((k, sent), s1) \<Longrightarrow> k = Finished"
  by (auto split: prod.splits if_splits)
lemma phase1_post_step:
  assumes "phase1_post txID es tr0 (evs @ new) err tr'"
  shows "phase1_post txID es tr0 evs err tr'"
  using assms unfolding phase1_post_def
  by (elim exE) (rule_tac x = "new @ newa" in exI, simp)

lemma phase1_post_fail:
  assumes "list_ex phase1_failure (evs @ new)"
  shows "phase1_post txID es tr0 evs (Some x) (tr0 @ evs @ new)"
  using assms unfolding phase1_post_def by (intro exI [of _ new]) simp

lemma phase1_post_head:
  assumes "phase1_post txID es tr0 evs err tr'" and "task_done txID evs e"
  shows "phase1_post txID (e # es) tr0 evs err tr'"
  using assms unfolding phase1_post_def by (auto simp add: task_done_mono)

lemma drain_Finished_step:
  assumes inv: "phase1_inv txID ((e, Tried r) # rest) evs"
    and step: "tryTask_step st txID e (Tried r) (w, tr0 @ evs) = ((k, sent), s1)"
    and IH: "\<And>evs w err s'. phase1_inv txID rest evs \<Longrightarrow>
           drain st txID rest (w, tr0 @ evs) = (err, s') \<Longrightarrow>
           phase1_post txID (map fst rest) tr0 evs err (snd s')"
    and res: "(case sent of Some x \<Rightarrow> (Some x, s1) | None \<Rightarrow> drain st txID rest s1) = (err, s')"
  shows "phase1_post txID (e # map fst rest) tr0 evs err (snd s')"
proof -
  have k: "k = Finished" using step_Tried [OF step] .
  from step_inv [of txID "[]" e "Tried r" rest evs st w tr0 k sent s1] inv step
  obtain new where new: "snd s1 = tr0 @ evs @ new"
    "sent = None \<longrightarrow> phase1_inv txID ((e, k) # rest) (evs @ new)"
    "sent \<noteq> None \<longrightarrow> list_ex phase1_failure (evs @ new)"
    by auto
  show ?thesis
  proof (cases sent)
    case (Some x)
    with res have "err = Some x" "s' = s1" by simp_all
    with new Some show ?thesis by (simp add: phase1_post_fail)
  next
    case None
    with new(2) k have "phase1_inv txID ((e, Finished) # rest) (evs @ new)" by simp
    from inv_tail [OF this] have i: "phase1_inv txID rest (evs @ new)"
      and d: "task_done txID (evs @ new) e" by simp_all
    from res None have "drain st txID rest (fst s1, tr0 @ (evs @ new)) = (err, s')"
      using new(1) by (cases s1) simp
    from IH [OF i this] have "phase1_post txID (map fst rest) tr0 (evs @ new) err (snd s')" .
    from phase1_post_head [OF this d] show ?thesis by (rule phase1_post_step)
  qed
qed

lemma drain_post:
  "phase1_inv txID tasks evs \<Longrightarrow> drain st txID tasks (w, tr0 @ evs) = (err, s') \<Longrightarrow>
     phase1_post txID (map fst tasks) tr0 evs err (snd s')"
proof (induction tasks arbitrary: evs w err s')
  case Nil
  then show ?case
    by (auto simp add: phase1_post_def phase1_inv_def pending_failure_def)
next
  case (Cons p rest)
  obtain e k where p: "p = (e, k)" by (cases p)
  show ?case
  proof (cases k)
    case Finished
    from Cons.prems(1) have "phase1_inv txID ((e, Finished) # rest) evs"
      by (simp add: p Finished)
    from inv_tail [OF this] have i: "phase1_inv txID rest evs" and d: "task_done txID evs e"
      by simp_all
    from Cons.prems(2) have "drain st txID rest (w, tr0 @ evs) = (err, s')"
      by (simp add: p Finished)
    from Cons.IH [OF i this] d show ?thesis
      by (simp add: p phase1_post_head)
  next
    case (Tried r)
    obtain k1 sent s1 where step: "tryTask_step st txID e (Tried r) (w, tr0 @ evs) = ((k1, sent), s1)"
      by (cases "tryTask_step st txID e (Tried r) (w, tr0 @ evs)") auto
    have res: "(case sent of Some x \<Rightarrow> (Some x, s1) | None \<Rightarrow> drain st txID rest s1) = (err, s')"
      using Cons.prems(2) step by (simp add: p Tried split: option.splits)
    have inv: "phase1_inv txID ((e, Tried r) # rest) evs"
      using Cons.prems(1) by (simp add: p Tried)
    from drain_Finished_step [OF inv step Cons.IH res] show ?thesis
      by (simp add: p)
  next
    case Ready
    obtain k1 sent1 s1 where step1: "tryTask_step st txID e Ready (w, tr0 @ evs) = ((k1, sent1), s1)"
      by (cases "tryTask_step st txID e Ready (w, tr0 @ evs)") auto
    from step_Ready [OF step1] obtain r where r: "sent1 = None" "k1 = Tried r" by blast
    have inv: "phase1_inv txID ([] @ (e, Ready) # rest) evs"
      using Cons.prems(1) by (simp add: p Ready)
    from step_inv [OF inv step1] r obtain new where new: "snd s1 = tr0 @ evs @ new"
      "phase1_inv txID ((e, Tried r) # rest) (evs @ new)"
      by auto
    obtain k2 sent s2 where step2: "tryTask_step st txID e (Tried r) (fst s1, tr0 @ (evs @ new)) = ((k2, sent), s2)"
      by (cases "tryTask_step st txID e (Tried r) (fst s1, tr0 @ (evs @ new))") auto
    have s1: "s1 = (fst s1, tr0 @ (evs @ new))" using new(1) by (cases s1) simp
    have res: "(case sent of Some x \<Rightarrow> (Some x, s2) | None \<Rightarrow> drain st txID rest s2) = (err, s')"
      using Cons.prems(2) step1 step2 r s1
      by (simp add: p Ready split: option.splits prod.splits)
    from drain_Finished_step [OF new(2) step2 Cons.IH res]
    have "phase1_post txID (e # map fst rest) tr0 (evs @ new) err (snd s')" .
    then show ?thesis by (simp add: p phase1_post_step)
  qed
qed


lemma fanOut_post:
  "phase1_inv txID tasks evs \<Longrightarrow> fanOut st txID schedule tasks (w, tr0 @ evs) = (err, s') \<Longrightarrow>
     phase1_post txID (map fst tasks) tr0 evs err (snd s')"
proof (induction schedule arbitrary: tasks evs w)
  case Nil
  then show ?case by (simp add: drain_post)
next
  case (Cons i schedule)
  show ?case
  proof (cases "i < length tasks")
    case False
    with Cons.prems have "fanOut st txID schedule tasks (w, tr0 @ evs) = (err, s')" by simp
    from Cons.IH [OF Cons.prems(1) this] show ?thesis .
  next
    case True
    define e where "e = fst (tasks ! i)"
    define k where "k = snd (tasks ! i)"
    define pre where "pre = take i tasks"
    define post where "post = drop (Suc i) tasks"
    have split: "tasks = pre @ (e, k) # post"
      using True by (simp add: pre_def post_def e_def k_def id_take_nth_drop)
    obtain k' sent s1 where step: "tryTask_step st txID e k (w, tr0 @ evs) = ((k', sent), s1)"
      by (cases "tryTask_step st txID e k (w, tr0 @ evs)") auto
    have upd: "tasks[i := (e, k')] = pre @ (e, k') # post"
      using True by (simp add: pre_def post_def upd_conv_take_nth_drop)
    have inv: "phase1_inv txID (pre @ (e, k) # post) evs"
      using Cons.prems(1) split by simp
    from step_inv [OF inv step] obtain new where new: "snd s1 = tr0 @ evs @ new"
      "sent = None \<longrightarrow> phase1_inv txID (pre @ (e, k') # post) (evs @ new)"
      "sent \<noteq> None \<longrightarrow> list_ex phase1_failure (evs @ new)"
      by blast
    show ?thesis
    proof (cases sent)
      case (Some x)
      with Cons.prems(2) True step have "err = Some x" "s' = s1"
        by (simp_all add: e_def k_def)
      with new Some show ?thesis by (simp add: phase1_post_fail)
    next
      case None
      with Cons.prems(2) True step
      have "fanOut st txID schedule (tasks[i := (e, k')]) s1 = (err, s')"
        by (simp add: e_def k_def)
      then have run: "fanOut st txID schedule (pre @ (e, k') # post) (fst s1, tr0 @ (evs @ new)) = (err, s')"
        using upd new(1) by (cases s1) simp
      from new(2) None have "phase1_inv txID (pre @ (e, k') # post) (evs @ new)" by simp
      from Cons.IH [OF this run]
      have "phase1_post txID (map fst (pre @ (e, k') # post)) tr0 (evs @ new) err (snd s')" .
      moreover have "map fst tasks = map fst (pre @ (e, k) # post)"
        using split by simp
      then have "map fst (pre @ (e, k') # post) = map fst tasks"
        by simp
      ultimately show ?thesis by (simp add: phase1_post_step)
    qed
  qed
qed

text \<open>
  Claim C1, as stated, does not hold: when phase 1 fails, \<open>Transaction\<close> returns
  success = false with a nil error. Here the participant \<^verbatim>\<open>B\<close> holds a tombstone for
  \<^verbatim>\<open>tx1\<close>, its Try returns ack = false, and the result is \<open>(false, nil)\<close>.
\<close>

theorem Transaction_nil_error_counterexample:
  "Transaction example_manager [0, 1, 1, 0]
      [example_request ''A'' ''a1'', example_request ''B'' ''b1'']
      ([BuildTXKey ''B'' ''tx1'' \<mapsto> TXCanceled], [])
     = ((False, None),
        ([BuildTXKey ''B'' ''tx1'' \<mapsto> TXCanceled,
          BuildTXDetailKey ''A'' ''tx1'' \<mapsto> ''a1'',
          BuildDataKey ''A'' ''tx1'' ''a1'' \<mapsto> DataFrozen,
          BuildTXKey ''A'' ''tx1'' \<mapsto> TXTried],
         [EvCreateTX [''A'', ''B''] (Inr ''tx1''),
          EvTry ''A'' ''tx1'' (Inr \<lparr>resp_ComponentID = ''A'', ACK = True, resp_TXID = ''tx1''\<rparr>),
          EvTry ''B'' ''tx1'' (Inr \<lparr>resp_ComponentID = ''B'', ACK = False, resp_TXID = ''tx1''\<rparr>),
          EvTXUpdate ''tx1'' ''B'' False None]))"
  by (simp add: Transaction_def getComponents_def twoPhaseCommit_def call_Try_def
      call_CreateTX_def call_TXUpdate_def ToComponents_def tryFailed_def
      example_manager_def example_store_def example_request_def register_def
      newRegistryCenter_def NewMockComponent_def MockComponent_Try_def lock_Lock_def
      client_Get_def client_Set_def client_SetNX_def BuildTXKey_def BuildTXDetailKey_def
      BuildDataKey_def BuildTXLockKey_def TXTried_def TXConfirmed_def TXCanceled_def
      DataFrozen_def ToString_def Let_def)

text \<open>
  Claim C1, amended: for every call to \<open>Transaction\<close> that passes validation and whose
  \<open>CreateTX\<close> succeeds, and for every schedule of the Try tasks, the call returns
  \<open>(successful, nil)\<close>: the error is nil whether or not phase 1 fails. \<open>successful\<close> is
  false exactly when phase 1 fails, that is when the log of the call holds a Try that
  returned an error or ack = false, or a TXUpdate that returned an error; and when it is
  true, every participant of the transaction has an acknowledged Try and a successful
  \<open>TXUpdate(\<dots>, true)\<close> in the log.
\<close>

theorem Transaction_phase1:
  assumes "getComponents t reqs = Inr componentEntities"
    and "call_CreateTX (txStore t) (ToComponents componentEntities) s = (Inr txID, s1)"
  shows "\<exists>successful w evs.
      Transaction t schedule reqs s = ((successful, None), (w, snd s1 @ evs))
      \<and> (successful \<longleftrightarrow> \<not> list_ex phase1_failure evs)
      \<and> (successful \<longrightarrow>
           (\<forall>e \<in> set componentEntities.
              (\<exists>resp. ACK resp \<and> EvTry (ID (Component e)) txID (Inr resp) \<in> set evs)
              \<and> EvTXUpdate txID (ID (Component e)) True None \<in> set evs))"
proof -
  define tasks where "tasks = map (\<lambda>componentEntity. (componentEntity, Ready)) componentEntities"
  obtain err s2 where run: "fanOut (txStore t) txID schedule tasks (fst s1, snd s1 @ []) = (err, s2)"
    by (cases "fanOut (txStore t) txID schedule tasks (fst s1, snd s1 @ [])")
  have inv: "phase1_inv txID tasks []"
    by (auto simp add: phase1_inv_def tasks_def task_ok_def)
  have fst: "map fst tasks = componentEntities"
    by (simp add: tasks_def comp_def)
  from fanOut_post [OF inv run] obtain new where new: "snd s2 = snd s1 @ new"
    "err = None \<longrightarrow> \<not> list_ex phase1_failure new
        \<and> (\<forall>e \<in> set componentEntities. task_done txID new e)"
    "err \<noteq> None \<longrightarrow> list_ex phase1_failure new"
    unfolding phase1_post_def fst by auto
  have res: "Transaction t schedule reqs s = ((err = None, None), (fst s2, snd s1 @ new))"
    using assms run new(1)
    by (cases s2) (simp add: Transaction_def twoPhaseCommit_def tasks_def)
  show ?thesis
    apply (rule exI [of _ "err = None"])
    apply (rule exI [of _ "fst s2"])
    apply (rule exI [of _ new])
    using res new(2,3) by (auto simp add: task_done_def)
qed

theorem Transaction_phase1_witness:
  "fst (Transaction example_manager [0, 1, 0, 1]
      [example_request ''A'' ''a1'', example_request ''B'' ''b1''] (Map.empty, []))
     = (True, None)
   \<and> snd (snd (Transaction example_manager [0, 1, 0, 1]
      [example_request ''A'' ''a1'', example_request ''B'' ''b1''] (Map.empty, [])))
     = [EvCreateTX [''A'', ''B''] (Inr ''tx1''),
        EvTry ''A'' ''tx1'' (Inr \<lparr>resp_ComponentID = ''A'', ACK = True, resp_TXID = ''tx1''\<rparr>),
        EvTry ''B'' ''tx1'' (Inr \<lparr>resp_ComponentID = ''B'', ACK = True, resp_TXID = ''tx1''\<rparr>),
        EvTXUpdate ''tx1'' ''A'' True None,
        EvTXUpdate ''tx1'' ''B'' True None]"
proof -
  have g: "getComponents example_manager
      [example_request ''A'' ''a1'', example_request ''B'' ''b1'']
     = Inr [\<lparr>Request = [''biz_id'' \<mapsto> ''a1''], Component = NewMockComponent ''A''\<rparr>,
            \<lparr>Request = [''biz_id'' \<mapsto> ''b1''], Component = NewMockComponent ''B''\<rparr>]"
    by (simp add: getComponents_def example_manager_def example_request_def register_def
        newRegistryCenter_def NewMockComponent_def)
  have c: "call_CreateTX (txStore example_manager)
      (ToComponents [\<lparr>Request = [''biz_id'' \<mapsto> ''a1''], Component = NewMockComponent ''A''\<rparr>,
            \<lparr>Request = [''biz_id'' \<mapsto> ''b1''], Component = NewMockComponent ''B''\<rparr>])
      (Map.empty, [])
     = (Inr ''tx1'', (Map.empty, [EvCreateTX [''A'', ''B''] (Inr ''tx1'')]))"
    by (simp add: call_CreateTX_def ToComponents_def example_manager_def example_store_def
        NewMockComponent_def)
  from Transaction_phase1 [OF g c, of "[0, 1, 0, 1]"] show ?thesis
    by (simp add: Transaction_def getComponents_def twoPhaseCommit_def call_Try_def
      call_CreateTX_def call_TXUpdate_def ToComponents_def tryFailed_def
      example_manager_def example_store_def example_request_def register_def
      newRegistryCenter_def NewMockComponent_def MockComponent_Try_def lock_Lock_def
      client_Get_def client_Set_def client_SetNX_def BuildTXKey_def BuildTXDetailKey_def
      BuildDataKey_def BuildTXLockKey_def TXTried_def TXConfirmed_def TXCanceled_def
      DataFrozen_def ToString_def Let_def)
qed

end
